theory Spec2Isabelle
  imports Complex_Main
begin

section \<open>Python values used by the two engines\<close>

text \<open>
  Text is a list of characters. The character predicates below follow Python's
  \<^verbatim>\<open>str\<close> on the ASCII range; a character above 0x7F is neither
  white space nor a word character and is left alone by \<^verbatim>\<open>lower()\<close>.
\<close>

datatype py_error =
    NoSuchGroup
  | ListIndexOutOfRange
  | KeyError string
  | MaxOfEmpty
  | ZeroDivision
  | BackendFault string

fun py_str :: "py_error \<Rightarrow> string" where
  "py_str NoSuchGroup = ''no such group''"
| "py_str ListIndexOutOfRange = ''list index out of range''"
| "py_str (KeyError k) = [CHR 0x27] @ k @ [CHR 0x27]"
| "py_str MaxOfEmpty = ''max() arg is an empty sequence''"
| "py_str ZeroDivision = ''division by zero''"
| "py_str (BackendFault msg) = msg"

definition is_space :: "char \<Rightarrow> bool" where
  "is_space c = (c \<in> set [CHR '' '', CHR 0x09, CHR 0x0A, CHR 0x0B, CHR 0x0C, CHR 0x0D,
                            CHR 0x1C, CHR 0x1D, CHR 0x1E, CHR 0x1F])"

definition is_word :: "char \<Rightarrow> bool" where
  "is_word c = (c \<in> set (''abcdefghijklmnopqrstuvwxyz'' @ ''ABCDEFGHIJKLMNOPQRSTUVWXYZ''
                           @ ''0123456789_''))"

definition lower_char :: "char \<Rightarrow> char" where
  "lower_char c = (case map_of (zip ''ABCDEFGHIJKLMNOPQRSTUVWXYZ''
                                    ''abcdefghijklmnopqrstuvwxyz'') c of
                     Some d \<Rightarrow> d | None \<Rightarrow> c)"

definition lower :: "string \<Rightarrow> string" where
  "lower s = map lower_char s"

fun startswith :: "string \<Rightarrow> string \<Rightarrow> bool" where
  "startswith s [] = True"
| "startswith [] (c # w) = False"
| "startswith (a # s) (c # w) = (a = c \<and> startswith s w)"

text \<open>\<^verbatim>\<open>w in s\<close> on strings: \<open>w\<close> occurs in \<open>s\<close> as a contiguous substring.\<close>

fun py_in :: "string \<Rightarrow> string \<Rightarrow> bool" where
  "py_in w [] = startswith [] w"
| "py_in w (a # s) = (startswith (a # s) w \<or> py_in w s)"

text \<open>\<^verbatim>\<open>s.split()\<close>: the maximal runs of characters that are not white space.\<close>

fun split_acc :: "string \<Rightarrow> string \<Rightarrow> string list" where
  "split_acc cur [] = (if cur = [] then [] else [cur])"
| "split_acc cur (c # s) =
     (if is_space c then (if cur = [] then split_acc [] s else cur # split_acc [] s)
      else split_acc (cur @ [c]) s)"

definition split :: "string \<Rightarrow> string list" where
  "split s = split_acc [] s"

fun join :: "string \<Rightarrow> string list \<Rightarrow> string" where
  "join sep [] = []"
| "join sep [w] = w"
| "join sep (w # v # ws) = w @ sep @ join sep (v # ws)"

definition strip :: "string \<Rightarrow> string" where
  "strip s = rev (dropWhile is_space (rev (dropWhile is_space s)))"

definition any_in :: "string list \<Rightarrow> string \<Rightarrow> bool" where
  "any_in ws s = list_ex (\<lambda>w. py_in w s) ws"

section \<open>The regular expressions of the templates\<close>

text \<open>
  The patterns of the source use literals, alternatives, an optional group, the
  greedy repetitions \<^verbatim>\<open>\s+\<close>, \<^verbatim>\<open>\w+\<close>, \<^verbatim>\<open>.+\<close>, and at most one capturing
  group, which closes the pattern. \<open>rx_match r s\<close> lists what is left of \<open>s\<close>
  after each way \<open>r\<close> matches a prefix of it, in the order in which a backtracking
  matcher tries them: the longest repetition first, the left alternative first, the
  optional part present before absent.
\<close>

datatype cclass = Space | Word | Dot

fun in_class :: "cclass \<Rightarrow> char \<Rightarrow> bool" where
  "in_class Space c = is_space c"
| "in_class Word c = is_word c"
| "in_class Dot c = (c \<noteq> CHR 0x0A)"

datatype rx =
    Lit string
  | Alt rx rx
  | Seq rx rx
  | Plus cclass
  | Opt rx

datatype pattern = Plain rx | Capture rx rx

fun rx_match :: "rx \<Rightarrow> string \<Rightarrow> string list" where
  "rx_match (Lit w) s = (if startswith s w then [drop (length w) s] else [])"
| "rx_match (Alt a b) s = rx_match a s @ rx_match b s"
| "rx_match (Seq a b) s = concat (map (rx_match b) (rx_match a s))"
| "rx_match (Plus c) s =
     map (\<lambda>k. drop k s) (rev [1 ..< Suc (length (takeWhile (in_class c) s))])"
| "rx_match (Opt a) s = rx_match a s @ [s]"

text \<open>A match object is the tuple of its groups, \<^verbatim>\<open>match.groups()\<close>.\<close>

type_synonym match = "string list"

fun match_at :: "pattern \<Rightarrow> string \<Rightarrow> match option" where
  "match_at (Plain r) s = (case rx_match r s of [] \<Rightarrow> None | _ # _ \<Rightarrow> Some [])"
| "match_at (Capture a b) s =
     (case concat (map (\<lambda>s1. map (\<lambda>s2. take (length s1 - length s2) s1) (rx_match b s1))
                       (rx_match a s)) of
        [] \<Rightarrow> None
      | g # _ \<Rightarrow> Some [g])"

text \<open>\<^verbatim>\<open>re.search\<close>: the match at the leftmost position that has one.\<close>

fun re_search :: "pattern \<Rightarrow> string \<Rightarrow> match option" where
  "re_search p [] = match_at p []"
| "re_search p (c # s) =
     (case match_at p (c # s) of Some m \<Rightarrow> Some m | None \<Rightarrow> re_search p s)"

text \<open>\<^verbatim>\<open>match.group(1)\<close> raises \<^verbatim>\<open>IndexError\<close> on a pattern without groups.\<close>

fun group1 :: "match \<Rightarrow> py_error + string" where
  "group1 [] = Inl NoSuchGroup"
| "group1 (g # gs) = Inr g"

definition then_do :: "py_error + 'a \<Rightarrow> ('a \<Rightarrow> py_error + 'b) \<Rightarrow> py_error + 'b" where
  "then_do r f = (case r of Inl e \<Rightarrow> Inl e | Inr v \<Rightarrow> f v)"

definition py_index :: "'a list \<Rightarrow> nat \<Rightarrow> py_error + 'a" where
  "py_index xs i = (if i < length xs then Inr (xs ! i) else Inl ListIndexOutOfRange)"

section \<open>AIEngine: intents and task templates\<close>

text \<open>\<^verbatim>\<open>setup_intent_classifier\<close>: the dictionary of keyword buckets, in insertion order.\<close>

definition automation_words :: "string list" where
  "automation_words =
     [''open'', ''close'', ''click'', ''type'', ''navigate'', ''search'',
      ''start'', ''stop'', ''launch'', ''switch'', ''minimize'', ''maximize'']"

definition information_words :: "string list" where
  "information_words =
     [''what'', ''how'', ''why'', ''when'', ''where'', ''explain'', ''tell'',
      ''show'', ''find'', ''search'', ''lookup'']"

definition workflow_words :: "string list" where
  "workflow_words =
     [''record'', ''save'', ''create'', ''edit'', ''run'', ''execute'',
      ''schedule'', ''automate'', ''workflow'']"

definition intents :: "(string \<times> string list) list" where
  "intents =
    [(''automation'', automation_words),
     (''information'', information_words),
     (''workflow'', workflow_words)]"

text \<open>\<^verbatim>\<open>d[k]\<close> on a dictionary kept as an association list.\<close>

definition py_getitem :: "(string \<times> 'v) list \<Rightarrow> string \<Rightarrow> py_error + 'v" where
  "py_getitem d k = (case map_of d k of None \<Rightarrow> Inl (KeyError k) | Some v \<Rightarrow> Inr v)"

record template =
  tpl_patterns :: "pattern list"
  tpl_action :: string
  tpl_parameters :: "string list"

definition op_words :: rx where
  "op_words = Alt (Lit ''open'') (Alt (Lit ''create'') (Alt (Lit ''save'') (Lit ''delete'')))"

definition tpl_open_application :: template where
  "tpl_open_application =
    \<lparr>tpl_patterns =
       [Capture (Seq (Lit ''open'') (Plus Space)) (Plus Word),
        Capture (Seq (Lit ''launch'') (Plus Space)) (Plus Word),
        Capture (Seq (Lit ''start'') (Plus Space)) (Plus Word)],
     tpl_action = ''open_app'',
     tpl_parameters = [''app_name'']\<rparr>"

definition tpl_web_search :: template where
  "tpl_web_search =
    \<lparr>tpl_patterns =
       [Capture (Seq (Lit ''search'')
                  (Seq (Plus Space) (Opt (Seq (Lit ''for'') (Plus Space))))) (Plus Dot),
        Capture (Seq (Lit ''google'') (Plus Space)) (Plus Dot),
        Capture (Seq (Lit ''find'') (Plus Space)) (Plus Dot)],
     tpl_action = ''web_search'',
     tpl_parameters = [''query'']\<rparr>"

definition tpl_file_operation :: template where
  "tpl_file_operation =
    \<lparr>tpl_patterns =
       [Capture (Seq op_words
                  (Seq (Plus Space)
                    (Seq (Alt (Lit ''file'') (Lit ''folder'')) (Plus Space)))) (Plus Dot),
        Capture (Seq op_words (Plus Space)) (Plus Dot)],
     tpl_action = ''file_operation'',
     tpl_parameters = [''file_path'', ''operation'']\<rparr>"

definition tpl_system_control :: template where
  "tpl_system_control =
    \<lparr>tpl_patterns =
       [Plain (Seq (Alt (Lit ''shutdown'') (Alt (Lit ''restart'')
                      (Alt (Lit ''sleep'') (Lit ''wake''))))
                (Seq (Plus Space) (Alt (Lit ''computer'') (Lit ''pc'')))),
        Plain (Seq (Alt (Lit ''volume'') (Alt (Lit ''brightness'')
                      (Alt (Lit ''wifi'') (Lit ''bluetooth''))))
                (Seq (Plus Space)
                  (Alt (Lit ''up'') (Alt (Lit ''down'') (Alt (Lit ''on'') (Lit ''off''))))))],
     tpl_action = ''system_control'',
     tpl_parameters = [''control_type'', ''value'']\<rparr>"

text \<open>\<^verbatim>\<open>load_task_templates\<close>: the dictionary of templates, in insertion order.\<close>

definition task_templates :: "(string \<times> template) list" where
  "task_templates =
    [(''open_application'', tpl_open_application),
     (''web_search'', tpl_web_search),
     (''file_operation'', tpl_file_operation),
     (''system_control'', tpl_system_control)]"

section \<open>AIEngine: extracting action, target and parameters\<close>

text \<open>A parameter dictionary holds strings and, on the automation side, \<^verbatim>\<open>None\<close>.\<close>

datatype py_val = Str string | PyNone

type_synonym params = "string \<rightharpoonup> py_val"

definition app_name_re :: pattern where
  "app_name_re =
    Capture (Seq (Alt (Lit ''open'') (Alt (Lit ''launch'') (Lit ''start''))) (Plus Space))
            (Plus Word)"

definition query_re :: pattern where
  "query_re =
    Capture (Seq (Alt (Lit ''search'') (Alt (Lit ''google'') (Lit ''find'')))
              (Seq (Plus Space) (Opt (Seq (Lit ''for'') (Plus Space))))) (Plus Dot)"

definition file_path_re :: pattern where
  "file_path_re =
    Capture (Seq (Alt (Lit ''file'') (Lit ''folder'')) (Plus Space)) (Plus Dot)"

text \<open>
  One \<^verbatim>\<open>if name in template.get('parameters', [])\<close> block of
  \<^verbatim>\<open>extract_parameters\<close>: the regex is searched in \<^verbatim>\<open>message.lower()\<close>.
\<close>

definition extract_one ::
  "string \<Rightarrow> pattern \<Rightarrow> string \<Rightarrow> template \<Rightarrow> params \<Rightarrow> py_error + params" where
  "extract_one name re message template ps =
     (if name \<in> set (tpl_parameters template) then
        (case re_search re (lower message) of
           Some m \<Rightarrow> then_do (group1 m) (\<lambda>g. Inr (ps(name \<mapsto> Str g)))
         | None \<Rightarrow> Inr ps)
      else Inr ps)"

definition extract_parameters :: "string \<Rightarrow> template \<Rightarrow> py_error + params" where
  "extract_parameters message template =
     then_do (extract_one ''app_name'' app_name_re message template Map.empty) (\<lambda>p1.
     then_do (extract_one ''query'' query_re message template p1) (\<lambda>p2.
     extract_one ''file_path'' file_path_re message template p2))"

text \<open>The two nested loops of \<^verbatim>\<open>extract_action_target\<close>, left at the first match.\<close>

fun first_pattern :: "pattern list \<Rightarrow> string \<Rightarrow> match option" where
  "first_pattern [] s = None"
| "first_pattern (p # ps) s =
     (case re_search p s of Some m \<Rightarrow> Some m | None \<Rightarrow> first_pattern ps s)"

fun first_template :: "(string \<times> template) list \<Rightarrow> string \<Rightarrow> (template \<times> match) option" where
  "first_template [] s = None"
| "first_template ((name, t) # ts) s =
     (case first_pattern (tpl_patterns t) s of
        Some m \<Rightarrow> Some (t, m)
      | None \<Rightarrow> first_template ts s)"

definition extract_action_target :: "string \<Rightarrow> py_error + (string \<times> string \<times> params)" where
  "extract_action_target message =
     (let message_lower = lower message in
      case first_template task_templates message_lower of
        Some (template, m) \<Rightarrow>
          then_do (if m \<noteq> [] then group1 m else Inr []) (\<lambda>target.
          then_do (extract_parameters message template) (\<lambda>parameters.
          Inr (tpl_action template, target, parameters)))
      | None \<Rightarrow>
          (let words = split message_lower in
           if 2 \<le> length words then
             then_do (py_index words 0) (\<lambda>action.
             Inr (action, join '' '' (drop 1 words), Map.empty))
           else Inr (''unknown'', message, Map.empty)))"

section \<open>AIEngine: classifying a message\<close>

text \<open>
  \<^verbatim>\<open>confidence\<close> is the quotient of two integers. Python rounds it to the nearest
  double; the model keeps the exact quotient, which lies on the same side of every
  integer bound.
\<close>

record TaskIntent =
  action :: string
  target :: string
  parameters :: params
  confidence :: rat
  task_type :: string

text \<open>\<^verbatim>\<open>sum(1 for word in words if word in message_lower)\<close>\<close>

definition hits :: "string list \<Rightarrow> string \<Rightarrow> nat" where
  "hits words message_lower = length (filter (\<lambda>word. py_in word message_lower) words)"

text \<open>The same sum with \<^verbatim>\<open>words = self.intents[bucket]\<close>.\<close>

definition score :: "string \<Rightarrow> string \<Rightarrow> py_error + nat" where
  "score bucket message_lower =
     then_do (py_getitem intents bucket) (\<lambda>words. Inr (hits words message_lower))"

text \<open>
  \<^verbatim>\<open>max(scores, key=scores.get)\<close>: the keys are visited in insertion order and a
  later key replaces the best one only when its value is strictly greater.
\<close>

fun max_from :: "string \<times> nat \<Rightarrow> (string \<times> nat) list \<Rightarrow> string" where
  "max_from (bk, bv) [] = bk"
| "max_from (bk, bv) ((k, v) # rest) =
     (if bv < v then max_from (k, v) rest else max_from (bk, bv) rest)"

definition py_max_key :: "(string \<times> nat) list \<Rightarrow> py_error + string" where
  "py_max_key d = (case d of [] \<Rightarrow> Inl MaxOfEmpty | kv # rest \<Rightarrow> Inr (max_from kv rest))"

definition py_truediv :: "nat \<Rightarrow> nat \<Rightarrow> py_error + rat" where
  "py_truediv a b = (if b = 0 then Inl ZeroDivision else Inr (of_nat a / of_nat b))"

definition parse_intent :: "string \<Rightarrow> py_error + TaskIntent" where
  "parse_intent message =
     (let message_lower = lower message in
      then_do (score ''automation'' message_lower) (\<lambda>automation_score.
      then_do (score ''information'' message_lower) (\<lambda>info_score.
      then_do (score ''workflow'' message_lower) (\<lambda>workflow_score.
      let scores = [(''automation'', automation_score),
                    (''information'', info_score),
                    (''workflow'', workflow_score)] in
      then_do (py_max_key scores) (\<lambda>tt.
      then_do (py_getitem scores tt) (\<lambda>winning.
      then_do (py_truediv winning (max (length (split message)) 1)) (\<lambda>conf.
      then_do (extract_action_target message) (\<lambda>(a, t, ps).
      Inr \<lparr>action = a, target = t, parameters = ps, confidence = conf,
           task_type = tt\<rparr>))))))))"

section \<open>AIEngine: the response backends\<close>

text \<open>
  The two remote clients are outside the program: \<open>gemini_generate\<close> stands for
  \<^verbatim>\<open>self.gemini_model.generate_content(prompt).text\<close> and \<open>openai_create\<close> for
  \<^verbatim>\<open>openai.ChatCompletion.create(...).choices[0].message.content\<close> on the user
  message; a fault of either is an \<open>Inl\<close>.
\<close>

record engine =
  use_openai :: bool
  use_gemini :: bool
  api_key :: "string option"
  gemini_api_key :: "string option"
  gemini_generate :: "string \<Rightarrow> py_error + string"
  openai_create :: "string \<Rightarrow> py_error + string"

text \<open>Truth value of an \<^verbatim>\<open>Optional[str]\<close>.\<close>

fun truthy :: "string option \<Rightarrow> bool" where
  "truthy None = False"
| "truthy (Some s) = (s \<noteq> [])"

definition try_except :: "py_error + 'a \<Rightarrow> (py_error \<Rightarrow> 'a) \<Rightarrow> 'a" where
  "try_except body handler = (case body of Inr v \<Rightarrow> v | Inl e \<Rightarrow> handler e)"

definition bullet :: string where
  "bullet = [CHR 0xE2, CHR 0x80, CHR 0xA2]"

definition help_menu :: string where
  "help_menu =
     ''I can help you with:'' @ [CHR 0x0A] @
     bullet @ '' Opening applications and files'' @ [CHR 0x0A] @
     bullet @ '' Web searches and browsing'' @ [CHR 0x0A] @
     bullet @ '' File and folder operations'' @ [CHR 0x0A] @
     bullet @ '' System controls (volume, brightness, etc.)'' @ [CHR 0x0A] @
     bullet @ '' Creating and running workflows'' @ [CHR 0x0A] @
     bullet @ '' Answering questions about Windows'' @ [CHR 0x0A] @
     ''Just tell me what you'd like to do!''"

definition local_body :: "string \<Rightarrow> py_error + string" where
  "local_body message =
     (let message_lower = lower message in
      if any_in [''hello'', ''hi'', ''hey''] message_lower then
        Inr ''Hello! I'm your Windows AI Assistant. How can I help you today?''
      else if any_in [''help'', ''what can you do''] message_lower then
        Inr help_menu
      else if any_in [''open'', ''launch'', ''start''] message_lower then
        Inr (''I can help you open applications and files. '' @
             ''Just tell me what you'd like to open!'')
      else if any_in [''search'', ''find'', ''google''] message_lower then
        Inr (''I can help you search the web or find files on your computer. '' @
             ''What are you looking for?'')
      else
        Inr (''I understand you're asking about that. '' @
             ''Let me help you with that task or question!''))"

definition generate_local_response :: "string \<Rightarrow> string" where
  "generate_local_response message =
     try_except (local_body message)
       (\<lambda>e. ''I'm here to help! What would you like me to do?'')"

definition gemini_prompt :: "string \<Rightarrow> string" where
  "gemini_prompt message =
     ''You are a helpful Windows AI assistant. Provide concise, helpful responses '' @
     ''about Windows automation, computer tasks, and general computing questions.'' @
     [CHR 0x0A, CHR 0x0A] @ ''User: '' @ message @ [CHR 0x0A, CHR 0x0A] @ ''Assistant:''"

definition generate_gemini_response :: "engine \<Rightarrow> string \<Rightarrow> string" where
  "generate_gemini_response eng message =
     try_except (then_do (gemini_generate eng (gemini_prompt message)) (\<lambda>text. Inr (strip text)))
       (\<lambda>e. generate_local_response message)"

definition generate_openai_response :: "engine \<Rightarrow> string \<Rightarrow> string" where
  "generate_openai_response eng message =
     try_except (then_do (openai_create eng message) (\<lambda>content. Inr (strip content)))
       (\<lambda>e. generate_local_response message)"

definition generate_chat_response :: "engine \<Rightarrow> string \<Rightarrow> string" where
  "generate_chat_response eng message =
     try_except
       (if use_gemini eng \<and> truthy (gemini_api_key eng) then
          Inr (generate_gemini_response eng message)
        else if use_openai eng \<and> truthy (api_key eng) then
          Inr (generate_openai_response eng message)
        else Inr (generate_local_response message))
       (\<lambda>e. ''I'm having trouble processing your request right now. Please try again.'')"

text \<open>
  For comparison only, the chain as the specification words it: each tier in turn,
  a tier that is not configured or faults handing over to the next one.
\<close>

definition respond_as_specified :: "engine \<Rightarrow> string \<Rightarrow> string" where
  "respond_as_specified eng message =
     (case (if use_gemini eng \<and> truthy (gemini_api_key eng)
            then gemini_generate eng (gemini_prompt message)
            else Inl (BackendFault ''not configured'')) of
        Inr text \<Rightarrow> strip text
      | Inl e1 \<Rightarrow>
          (case (if use_openai eng \<and> truthy (api_key eng)
                 then openai_create eng message
                 else Inl (BackendFault ''not configured'')) of
             Inr content \<Rightarrow> strip content
           | Inl e2 \<Rightarrow> generate_local_response message))"

section \<open>AIEngine: handling one message\<close>

text \<open>
  \<^verbatim>\<open>intent.confidence > 0.3\<close> compares doubles; on the exact quotient the test is
  \<open>3 / 10 < confidence\<close>, with the same outcome unless the quotient differs from
  three tenths by less than the spacing of doubles there, which takes a message of
  more than \<open>10 ^ 15\<close> words.
\<close>

definition handle_automation_intent :: "string \<Rightarrow> TaskIntent \<Rightarrow> string" where
  "handle_automation_intent message intent =
     (if 3 / 10 < confidence intent then
        ''I'll help you with that automation task: '' @ action intent @ '' '' @
        target intent @ ''. '' @ ''Processing this request through the automation engine...''
      else
        ''I'm not sure what automation you'd like me to perform. '' @
        ''Could you be more specific about what you want me to do?'')"

definition handle_information_intent :: "engine \<Rightarrow> string \<Rightarrow> TaskIntent \<Rightarrow> string" where
  "handle_information_intent eng message intent = generate_chat_response eng message"

definition handle_workflow_intent :: "string \<Rightarrow> TaskIntent \<Rightarrow> string" where
  "handle_workflow_intent message intent =
     ''I'll help you with workflow management: '' @ action intent @ '' '' @
     target intent @ ''. '' @ ''Processing this through the workflow system...''"

text \<open>The branches of the \<^verbatim>\<open>if/elif/else\<close> on \<^verbatim>\<open>intent.task_type\<close>.\<close>

datatype branch = AutomationBranch | InformationBranch | WorkflowBranch | ChatBranch

definition select_branch :: "string \<Rightarrow> branch" where
  "select_branch tt =
     (if tt = ''automation'' then AutomationBranch
      else if tt = ''information'' then InformationBranch
      else if tt = ''workflow'' then WorkflowBranch
      else ChatBranch)"

datatype signal =
    response_ready string
  | status_updated string
  | error_occurred string
  | task_completed string

definition process_message :: "engine \<Rightarrow> string \<Rightarrow> signal list" where
  "process_message eng message =
     status_updated ''Processing message...'' #
     try_except
       (then_do (parse_intent message) (\<lambda>intent.
        let response =
          (case select_branch (task_type intent) of
             AutomationBranch \<Rightarrow> handle_automation_intent message intent
           | InformationBranch \<Rightarrow> handle_information_intent eng message intent
           | WorkflowBranch \<Rightarrow> handle_workflow_intent message intent
           | ChatBranch \<Rightarrow> generate_chat_response eng message)
        in Inr [response_ready response, status_updated ''Response ready'']))
       (\<lambda>e. [error_occurred (''Error processing message: '' @ py_str e)])"

section \<open>AutomationEngine: parsing a request\<close>

text \<open>
  \<^verbatim>\<open>AutomationTask\<close>; its first three fields carry the prefix \<open>task_\<close> here, the
  names \<open>action\<close>, \<open>target\<close> and \<open>parameters\<close> being those of \<open>TaskIntent\<close>.
\<close>

record AutomationTask =
  task_action :: string
  task_target :: string
  task_parameters :: params
  background_mode :: bool

definition app_mappings :: "(string \<times> string) list" where
  "app_mappings =
    [(''chrome'', ''chrome''), (''google chrome'', ''chrome''),
     (''firefox'', ''firefox''), (''mozilla'', ''firefox''),
     (''edge'', ''edge''), (''microsoft edge'', ''edge''),
     (''word'', ''word''), (''microsoft word'', ''word''),
     (''excel'', ''excel''), (''microsoft excel'', ''excel''),
     (''powerpoint'', ''powerpoint''), (''microsoft powerpoint'', ''powerpoint''),
     (''outlook'', ''outlook''), (''microsoft outlook'', ''outlook''),
     (''notepad'', ''notepad''), (''calculator'', ''calculator''),
     (''calc'', ''calculator''), (''explorer'', ''explorer''),
     (''file explorer'', ''explorer''), (''files'', ''explorer''),
     (''visual studio'', ''devenv''), (''vs code'', ''code''), (''vscode'', ''code''),
     (''visual studio code'', ''code''), (''pycharm'', ''pycharm64''),
     (''intellij'', ''idea64''), (''sublime'', ''sublime_text''),
     (''spotify'', ''spotify''), (''vlc'', ''vlc''), (''media player'', ''wmplayer''),
     (''windows media player'', ''wmplayer'')]"

definition to_val :: "string option \<Rightarrow> py_val" where
  "to_val x = (case x of None \<Rightarrow> PyNone | Some s \<Rightarrow> Str s)"

text \<open>\<^verbatim>\<open>x or 'unknown'\<close>\<close>

definition or_unknown :: "string option \<Rightarrow> string" where
  "or_unknown x = (case x of None \<Rightarrow> ''unknown'' | Some s \<Rightarrow> if s = [] then ''unknown'' else s)"

text \<open>
  The loop \<^verbatim>\<open>for pattern in patterns: match = re.search(...); if match: x = match.group(1); break\<close>.
  The pattern lists of \<^verbatim>\<open>parse_open_app_request\<close> and \<^verbatim>\<open>parse_web_search_request\<close>
  are, letter for letter, those of the templates of the same name.
\<close>

definition first_group :: "pattern list \<Rightarrow> string \<Rightarrow> py_error + string option" where
  "first_group ps s =
     (case first_pattern ps s of
        None \<Rightarrow> Inr None
      | Some m \<Rightarrow> then_do (group1 m) (\<lambda>g. Inr (Some g)))"

definition parse_open_app_request :: "string \<Rightarrow> bool \<Rightarrow> py_error + AutomationTask" where
  "parse_open_app_request request bg =
     (let request_lower = lower request in
      then_do (first_group (tpl_patterns tpl_open_application) request_lower) (\<lambda>found.
      let app_name =
        (if truthy found then found
         else (case find (\<lambda>word. map_of app_mappings word \<noteq> None) (split request_lower) of
                 Some word \<Rightarrow> Some word
               | None \<Rightarrow> found))
      in
      case (if truthy app_name then app_name else None) of
        Some name \<Rightarrow>
          (let mapped_app = (case map_of app_mappings name of Some a \<Rightarrow> a | None \<Rightarrow> name)
           in Inr \<lparr>task_action = ''open_app'', task_target = mapped_app,
                   task_parameters = [''app_name'' \<mapsto> Str name, ''mapped_app'' \<mapsto> Str mapped_app],
                   background_mode = bg\<rparr>)
      | None \<Rightarrow>
          Inr \<lparr>task_action = ''open_app'', task_target = ''unknown'',
               task_parameters = [''app_name'' \<mapsto> Str ''unknown''],
               background_mode = bg\<rparr>))"

definition parse_web_search_request :: "string \<Rightarrow> bool \<Rightarrow> py_error + AutomationTask" where
  "parse_web_search_request request bg =
     (let request_lower = lower request in
      then_do (first_group (tpl_patterns tpl_web_search) request_lower) (\<lambda>found.
      let query = map_option strip found in
      Inr \<lparr>task_action = ''web_search'', task_target = or_unknown query,
           task_parameters = [''query'' \<mapsto> to_val query],
           background_mode = bg\<rparr>))"

definition parse_file_operation_request :: "string \<Rightarrow> bool \<Rightarrow> py_error + AutomationTask" where
  "parse_file_operation_request request bg =
     (let request_lower = lower request;
          operation =
            (if py_in ''create'' request_lower then ''create''
             else if py_in ''delete'' request_lower \<or> py_in ''remove'' request_lower
               then ''delete''
             else if py_in ''save'' request_lower then ''save''
             else ''open'')
      in
      then_do (first_group [file_path_re, Capture (Seq op_words (Plus Space)) (Plus Dot)]
                 request_lower) (\<lambda>found.
      let file_path = map_option strip found in
      Inr \<lparr>task_action = ''file_operation'', task_target = or_unknown file_path,
           task_parameters = [''operation'' \<mapsto> Str operation, ''file_path'' \<mapsto> to_val file_path],
           background_mode = bg\<rparr>))"

definition parse_system_control_request :: "string \<Rightarrow> bool \<Rightarrow> py_error + AutomationTask" where
  "parse_system_control_request request bg =
     (let request_lower = lower request;
          control_type =
            (if py_in ''volume'' request_lower then Some ''volume''
             else if py_in ''brightness'' request_lower then Some ''brightness''
             else if py_in ''wifi'' request_lower then Some ''wifi''
             else if py_in ''bluetooth'' request_lower then Some ''bluetooth''
             else None);
          val =
            (if py_in ''up'' request_lower \<or> py_in ''increase'' request_lower then Some ''up''
             else if py_in ''down'' request_lower \<or> py_in ''decrease'' request_lower
               then Some ''down''
             else if py_in ''on'' request_lower \<or> py_in ''enable'' request_lower then Some ''on''
             else if py_in ''off'' request_lower \<or> py_in ''disable'' request_lower
               then Some ''off''
             else None)
      in
      Inr \<lparr>task_action = ''system_control'', task_target = or_unknown control_type,
           task_parameters = [''control_type'' \<mapsto> to_val control_type, ''value'' \<mapsto> to_val val],
           background_mode = bg\<rparr>)"

text \<open>
  \<^verbatim>\<open>for i, word in enumerate(words): if word in [...] and i + 1 < len(words): target = words[i + 1]; break\<close>
\<close>

fun next_word :: "string list \<Rightarrow> string option" where
  "next_word (w # v # ws) =
     (if w \<in> set [''click'', ''type'', ''press''] then Some v else next_word (v # ws))"
| "next_word ws = None"

definition parse_interaction_request :: "string \<Rightarrow> bool \<Rightarrow> py_error + AutomationTask" where
  "parse_interaction_request request bg =
     (let request_lower = lower request;
          act =
            (if py_in ''click'' request_lower then ''click''
             else if py_in ''type'' request_lower \<or> py_in ''enter'' request_lower then ''type''
             else if py_in ''press'' request_lower then ''press''
             else ''click'');
          tgt = next_word (split request_lower)
      in
      Inr \<lparr>task_action = act, task_target = or_unknown tgt,
           task_parameters = [''action'' \<mapsto> Str act, ''target'' \<mapsto> to_val tgt],
           background_mode = bg\<rparr>)"

definition parse_automation_request ::
  "string \<Rightarrow> bool \<Rightarrow> py_error + AutomationTask option" where
  "parse_automation_request request bg =
     (let request_lower = lower request in
      if any_in [''open'', ''launch'', ''start''] request_lower then
        then_do (parse_open_app_request request bg) (\<lambda>t. Inr (Some t))
      else if any_in [''search'', ''google'', ''find''] request_lower then
        then_do (parse_web_search_request request bg) (\<lambda>t. Inr (Some t))
      else if any_in [''file'', ''folder'', ''document''] request_lower then
        then_do (parse_file_operation_request request bg) (\<lambda>t. Inr (Some t))
      else if any_in [''volume'', ''brightness'', ''wifi'', ''bluetooth''] request_lower then
        then_do (parse_system_control_request request bg) (\<lambda>t. Inr (Some t))
      else if any_in [''click'', ''type'', ''press''] request_lower then
        then_do (parse_interaction_request request bg) (\<lambda>t. Inr (Some t))
      else Inr None)"

section \<open>AutomationEngine: executing a task\<close>

text \<open>
  The host operating system is outside the program. The executors that only drive it
  (\<^verbatim>\<open>open_application\<close>, \<^verbatim>\<open>perform_web_search\<close>, \<^verbatim>\<open>perform_system_control\<close>,
  \<^verbatim>\<open>perform_interaction\<close>) each end in a catch-all handler that returns a string, so
  they are functions to strings here; the file primitives used by
  \<^verbatim>\<open>perform_file_operation\<close> return the fault they raise, if any. The state of
  the file system itself is not tracked.
\<close>

record host =
  open_application :: "string \<Rightarrow> params \<Rightarrow> string"
  perform_web_search :: "string \<Rightarrow> params \<Rightarrow> string"
  perform_system_control :: "string \<Rightarrow> params \<Rightarrow> string"
  perform_interaction :: "string \<Rightarrow> string \<Rightarrow> params \<Rightarrow> string"
  path_exists :: "string \<Rightarrow> bool"
  path_isdir :: "string \<Rightarrow> bool"
  path_basename :: "string \<Rightarrow> string"
  startfile :: "string \<Rightarrow> py_error option"
  makedirs :: "string \<Rightarrow> py_error option"
  open_w :: "string \<Rightarrow> py_error option"
  rmdir :: "string \<Rightarrow> py_error option"
  remove :: "string \<Rightarrow> py_error option"

text \<open>\<^verbatim>\<open>parameters.get(key, default)\<close>\<close>

definition py_get :: "params \<Rightarrow> string \<Rightarrow> py_val \<Rightarrow> py_val" where
  "py_get ps k d = (case ps k of Some v \<Rightarrow> v | None \<Rightarrow> d)"

fun format_val :: "py_val \<Rightarrow> string" where
  "format_val (Str s) = s"
| "format_val PyNone = ''None''"

text \<open>A host call followed by \<^verbatim>\<open>return result\<close>.\<close>

definition call_then :: "py_error option \<Rightarrow> string \<Rightarrow> py_error + string" where
  "call_then r result = (case r of None \<Rightarrow> Inr result | Some e \<Rightarrow> Inl e)"

definition perform_file_operation :: "host \<Rightarrow> string \<Rightarrow> params \<Rightarrow> string" where
  "perform_file_operation h file_path ps =
     try_except
       (let operation = py_get ps ''operation'' (Str ''open'') in
        if operation = Str ''open'' then
          (if path_exists h file_path then
             call_then (startfile h file_path) (''Opened: '' @ file_path)
           else Inr (''File not found: '' @ file_path))
        else if operation = Str ''create'' then
          (if path_isdir h file_path \<or> \<not> py_in ''.'' (path_basename h file_path) then
             call_then (makedirs h file_path) (''Created folder: '' @ file_path)
           else call_then (open_w h file_path) (''Created file: '' @ file_path))
        else if operation = Str ''delete'' then
          (if path_exists h file_path then
             (if path_isdir h file_path then
                call_then (rmdir h file_path) (''Deleted folder: '' @ file_path)
              else call_then (remove h file_path) (''Deleted file: '' @ file_path))
           else Inr (''File not found: '' @ file_path))
        else Inr (''Unknown operation: '' @ format_val operation))
       (\<lambda>e. ''Error with file operation: '' @ py_str e)"

record automation_state =
  current_task :: "AutomationTask option"
  is_running :: bool

text \<open>
  \<^verbatim>\<open>execute_task\<close>: the signals it emits, in order, and the state its
  \<^verbatim>\<open>finally\<close> block leaves.
\<close>

definition execute_task ::
  "host \<Rightarrow> automation_state \<Rightarrow> AutomationTask \<Rightarrow> signal list \<times> automation_state" where
  "execute_task h st task =
     (status_updated (''Executing: '' @ task_action task @ '' '' @ task_target task) #
      try_except
        (let result =
           (if task_action task = ''open_app'' then
              open_application h (task_target task) (task_parameters task)
            else if task_action task = ''web_search'' then
              perform_web_search h (task_target task) (task_parameters task)
            else if task_action task = ''file_operation'' then
              perform_file_operation h (task_target task) (task_parameters task)
            else if task_action task = ''system_control'' then
              perform_system_control h (task_target task) (task_parameters task)
            else if task_action task \<in> set [''click'', ''type'', ''press''] then
              perform_interaction h (task_action task) (task_target task) (task_parameters task)
            else ''Unknown action: '' @ task_action task)
         in Inr [task_completed result, status_updated ''Task completed''])
        (\<lambda>e. [error_occurred (''Error executing task: '' @ py_str e)]),
      st\<lparr>current_task := None, is_running := False\<rparr>)"

section \<open>Properties\<close>

subsection \<open>Evaluation rules and the two search loops\<close>

lemmas template_defs = task_templates_def tpl_open_application_def tpl_web_search_def
  tpl_file_operation_def tpl_system_control_def op_words_def

lemmas char_defs = lower_def lower_char_def is_space_def is_word_def split_def any_in_def

lemmas param_defs = extract_parameters_def extract_one_def app_name_re_def query_re_def
  file_path_re_def then_do_def

lemma first_pattern_None:
  "first_pattern ps s = None \<longleftrightarrow> (\<forall>p \<in> set ps. re_search p s = None)"
  by (induction ps) (auto split: option.splits)

lemma first_template_None:
  "first_template ts s = None \<longleftrightarrow>
     (\<forall>(n, t) \<in> set ts. \<forall>p \<in> set (tpl_patterns t). re_search p s = None)"
proof (induction ts)
  case Nil
  then show ?case by simp
next
  case (Cons a ts)
  obtain n t where a: "a = (n, t)" by (cases a)
  show ?case
  proof (cases "first_pattern (tpl_patterns t) s")
    case None
    then have "\<forall>p \<in> set (tpl_patterns t). re_search p s = None"
      by (simp add: first_pattern_None)
    then show ?thesis using Cons.IH by (simp add: a None)
  next
    case (Some m)
    then have "\<not> (\<forall>p \<in> set (tpl_patterns t). re_search p s = None)"
      using first_pattern_None [of "tpl_patterns t" s] by simp
    then show ?thesis using Some a by auto
  qed
qed

lemma first_pattern_at:
  assumes "\<forall>q \<in> set ps1. re_search q s = None" and "re_search p s = Some m"
  shows "first_pattern (ps1 @ p # ps2) s = Some m"
  using assms by (induction ps1) auto

lemma first_template_at:
  assumes "\<forall>(n', t') \<in> set pre. \<forall>q \<in> set (tpl_patterns t'). re_search q s = None"
    and "first_pattern (tpl_patterns t) s = Some m"
  shows "first_template (pre @ (name, t) # post) s = Some (t, m)"
  using assms
proof (induction pre)
  case Nil
  then show ?case by simp
next
  case (Cons a pre)
  obtain n' t' where a: "a = (n', t')" by (cases a)
  from Cons.prems(1) a have "first_pattern (tpl_patterns t') s = None"
    by (simp add: first_pattern_None)
  with Cons a show ?case by simp
qed

lemma match_at_Capture: "match_at (Capture a b) s = Some m \<Longrightarrow> \<exists>g. m = [g]"
  by (auto split: list.splits)

lemma re_search_Capture: "re_search (Capture a b) s = Some m \<Longrightarrow> \<exists>g. m = [g]"
proof (induction s)
  case Nil
  then show ?case using match_at_Capture by simp
next
  case (Cons c s)
  then show ?case using match_at_Capture [of a b "c # s" m]
    by (auto split: option.splits)
qed

lemma extract_one_Capture:
  "\<exists>ps'. extract_one name (Capture a b) message t ps = Inr ps'"
  by (auto simp: extract_one_def then_do_def split: option.splits dest!: re_search_Capture)

lemma extract_parameters_total: "\<exists>ps. extract_parameters message t = Inr ps"
proof -
  obtain p1 where p1: "extract_one ''app_name'' app_name_re message t Map.empty = Inr p1"
    unfolding app_name_re_def using extract_one_Capture by blast
  obtain p2 where p2: "extract_one ''query'' query_re message t p1 = Inr p2"
    unfolding query_re_def using extract_one_Capture by blast
  obtain p3 where p3: "extract_one ''file_path'' file_path_re message t p2 = Inr p3"
    unfolding file_path_re_def using extract_one_Capture by blast
  show ?thesis by (simp add: extract_parameters_def then_do_def p1 p2 p3)
qed


lemma matched_general:
  assumes "task_templates = pre @ (name, t) # post"
    and "tpl_patterns t = ps1 @ p # ps2"
    and "\<forall>(n', t') \<in> set pre. \<forall>q \<in> set (tpl_patterns t'). re_search q (lower message) = None"
    and "\<forall>q \<in> set ps1. re_search q (lower message) = None"
    and "re_search p (lower message) = Some m"
  shows "\<exists>ps. extract_parameters message t = Inr ps \<and>
           extract_action_target message =
             Inr (tpl_action t, (case m of [] \<Rightarrow> [] | g # _ \<Rightarrow> g), ps)"
proof -
  have "first_pattern (tpl_patterns t) (lower message) = Some m"
    using assms(2,4,5) by (simp add: first_pattern_at)
  then have ft: "first_template task_templates (lower message) = Some (t, m)"
    unfolding assms(1) using assms(3) by (rule first_template_at [rotated])
  obtain ps where ps: "extract_parameters message t = Inr ps"
    using extract_parameters_total by blast
  show ?thesis
    by (cases m) (simp_all add: extract_action_target_def ft ps then_do_def)
qed

lemma fallback_general:
  assumes "\<forall>(n, t) \<in> set task_templates. \<forall>p \<in> set (tpl_patterns t).
             re_search p (lower message) = None"
  shows "extract_action_target message =
           Inr (case split (lower message) of
                  w # v # ws \<Rightarrow> (w, join '' '' (v # ws), Map.empty)
                | _ \<Rightarrow> (''unknown'', message, Map.empty))"
proof -
  from assms have "first_template task_templates (lower message) = None"
    by (simp only: first_template_None)
  then show ?thesis
    by (auto simp: extract_action_target_def Let_def then_do_def py_index_def
          split: list.splits)
qed

lemma no_match_asdkjasd:
  "\<forall>(n, t) \<in> set task_templates. \<forall>p \<in> set (tpl_patterns t).
     re_search p (lower ''asdkjasd'') = None"
  by (simp add: template_defs char_defs)

lemma no_match_Hello_World:
  "\<forall>(n, t) \<in> set task_templates. \<forall>p \<in> set (tpl_patterns t).
     re_search p (lower ''Hello  World again'') = None"
  by (simp add: template_defs char_defs)

lemma asdkjasd_unknown:
  "extract_action_target ''asdkjasd'' = Inr (''unknown'', ''asdkjasd'', Map.empty)"
  using fallback_general [OF no_match_asdkjasd] by (simp add: char_defs)

lemma open_chrome_task:
  "extract_action_target ''open chrome'' =
     Inr (''open_app'', ''chrome'', [''app_name'' \<mapsto> Str ''chrome''])"
  by (simp add: extract_action_target_def template_defs char_defs param_defs)

lemma open_chrome_overlap:
  "re_search (tpl_patterns tpl_open_application ! 0) (lower ''open chrome'') = Some [''chrome'']
   \<and> re_search (tpl_patterns tpl_file_operation ! 1) (lower ''open chrome'') = Some [''chrome'']"
  by (simp add: template_defs char_defs)

subsection \<open>C4: templates and patterns are tried in declared order\<close>

text \<open>
  C4. The templates are declared in the order open_application, web_search,
  file_operation, system_control. Whenever the templates before \<open>t\<close> have no pattern
  that matches the lower-cased message, the patterns of \<open>t\<close> before \<open>p\<close> do not match
  and \<open>p\<close> matches, the result has the action of \<open>t\<close>, the first group of that match
  as target (the empty string when \<open>p\<close> has no group) and the parameters extracted
  for \<open>t\<close>. For \<^verbatim>\<open>open chrome\<close> both the first open_application pattern and the
  catch-all file_operation pattern match, and the result is action \<^verbatim>\<open>open_app\<close>,
  target \<^verbatim>\<open>chrome\<close>, parameters \<^verbatim>\<open>{app_name: chrome}\<close>.
\<close>

theorem first_template_first_pattern_wins:
  "map fst task_templates =
     [''open_application'', ''web_search'', ''file_operation'', ''system_control'']
   \<and> (\<forall>message pre name t post ps1 p ps2 m.
         task_templates = pre @ (name, t) # post \<and> tpl_patterns t = ps1 @ p # ps2
         \<and> (\<forall>(n', t') \<in> set pre. \<forall>q \<in> set (tpl_patterns t').
               re_search q (lower message) = None)
         \<and> (\<forall>q \<in> set ps1. re_search q (lower message) = None)
         \<and> re_search p (lower message) = Some m
         \<longrightarrow> (\<exists>ps. extract_parameters message t = Inr ps \<and>
                extract_action_target message =
                  Inr (tpl_action t, (case m of [] \<Rightarrow> [] | g # _ \<Rightarrow> g), ps)))
   \<and> re_search (tpl_patterns tpl_open_application ! 0) (lower ''open chrome'') = Some [''chrome'']
   \<and> re_search (tpl_patterns tpl_file_operation ! 1) (lower ''open chrome'') = Some [''chrome'']
   \<and> extract_action_target ''open chrome'' =
       Inr (''open_app'', ''chrome'', [''app_name'' \<mapsto> Str ''chrome''])"
proof (intro conjI allI impI)
  show "map fst task_templates =
     [''open_application'', ''web_search'', ''file_operation'', ''system_control'']"
    by (simp add: task_templates_def)
next
  fix message pre name t post ps1 p ps2 m
  assume h: "task_templates = pre @ (name, t) # post \<and> tpl_patterns t = ps1 @ p # ps2
         \<and> (\<forall>(n', t') \<in> set pre. \<forall>q \<in> set (tpl_patterns t').
               re_search q (lower message) = None)
         \<and> (\<forall>q \<in> set ps1. re_search q (lower message) = None)
         \<and> re_search p (lower message) = Some m"
  then show "\<exists>ps. extract_parameters message t = Inr ps \<and>
                extract_action_target message =
                  Inr (tpl_action t, (case m of [] \<Rightarrow> [] | g # _ \<Rightarrow> g), ps)"
    using matched_general [of pre name t post ps1 p ps2 message m] by blast
qed (use open_chrome_overlap open_chrome_task in simp_all)

theorem first_template_first_pattern_wins_witness:
  "task_templates = [(''open_application'', tpl_open_application)]
                     @ (''web_search'', tpl_web_search)
                     # [(''file_operation'', tpl_file_operation),
                        (''system_control'', tpl_system_control)]
   \<and> tpl_patterns tpl_web_search =
       [Capture (Seq (Lit ''search'')
                  (Seq (Plus Space) (Opt (Seq (Lit ''for'') (Plus Space))))) (Plus Dot),
        Capture (Seq (Lit ''google'') (Plus Space)) (Plus Dot)]
       @ Capture (Seq (Lit ''find'') (Plus Space)) (Plus Dot) # []
   \<and> re_search (Capture (Seq (Lit ''find'') (Plus Space)) (Plus Dot))
        (lower ''Find My  Keys'') = Some [''my  keys'']
   \<and> extract_action_target ''Find My  Keys'' =
       Inr (''web_search'', ''my  keys'', [''query'' \<mapsto> Str ''my  keys''])"
proof -
  let ?pre = "[(''open_application'', tpl_open_application)]"
  let ?post = "[(''file_operation'', tpl_file_operation),
                (''system_control'', tpl_system_control)]"
  let ?ps1 = "[Capture (Seq (Lit ''search'')
                  (Seq (Plus Space) (Opt (Seq (Lit ''for'') (Plus Space))))) (Plus Dot),
               Capture (Seq (Lit ''google'') (Plus Space)) (Plus Dot)]"
  let ?p = "Capture (Seq (Lit ''find'') (Plus Space)) (Plus Dot)"
  have a: "task_templates = ?pre @ (''web_search'', tpl_web_search) # ?post"
    by (simp add: task_templates_def)
  have b: "tpl_patterns tpl_web_search = ?ps1 @ ?p # []"
    by (simp add: tpl_web_search_def)
  have c: "\<forall>(n', t') \<in> set ?pre. \<forall>q \<in> set (tpl_patterns t').
             re_search q (lower ''Find My  Keys'') = None"
    by (simp add: template_defs char_defs)
  have d: "\<forall>q \<in> set ?ps1. re_search q (lower ''Find My  Keys'') = None"
    by (simp add: char_defs)
  have e: "re_search ?p (lower ''Find My  Keys'') = Some [''my  keys'']"
    by (simp add: char_defs)
  have f: "extract_parameters ''Find My  Keys'' tpl_web_search = Inr [''query'' \<mapsto> Str ''my  keys'']"
    by (simp add: template_defs char_defs param_defs)
  from first_template_first_pattern_wins
  have "\<exists>ps. extract_parameters ''Find My  Keys'' tpl_web_search = Inr ps \<and>
          extract_action_target ''Find My  Keys'' =
            Inr (tpl_action tpl_web_search,
                 (case [''my  keys''] of [] \<Rightarrow> [] | g # _ \<Rightarrow> g), ps)"
    using a b c d e by blast
  then obtain ps where p1: "extract_parameters ''Find My  Keys'' tpl_web_search = Inr ps"
    and p2: "extract_action_target ''Find My  Keys'' =
               Inr (tpl_action tpl_web_search,
                    (case [''my  keys''] of [] \<Rightarrow> [] | g # _ \<Rightarrow> g), ps)"
    by blast
  from p1 f have "ps = [''query'' \<mapsto> Str ''my  keys'']" by simp
  with p2 have "extract_action_target ''Find My  Keys'' =
       Inr (''web_search'', ''my  keys'', [''query'' \<mapsto> Str ''my  keys''])"
    by (simp add: tpl_web_search_def)
  with a b e show ?thesis by simp
qed

subsection \<open>C6: the fallback when no template matches\<close>

text \<open>
  C6. When no pattern of any template matches the lower-cased message,
  \<^verbatim>\<open>extract_action_target\<close> raises nothing and splits the lower-cased message on white
  space: with two words or more the action is the first word and the target the
  other words joined by single spaces; otherwise the action is \<^verbatim>\<open>unknown\<close> and the
  target is the message as given; the parameters are empty. The one-word message
  \<^verbatim>\<open>asdkjasd\<close> gives action \<^verbatim>\<open>unknown\<close> and target \<^verbatim>\<open>asdkjasd\<close>.
\<close>

theorem fallback_splits_lowered_text:
  "((\<forall>(n, t) \<in> set task_templates. \<forall>p \<in> set (tpl_patterns t).
       re_search p (lower message) = None) \<longrightarrow>
    extract_action_target message =
      Inr (case split (lower message) of
             w # v # ws \<Rightarrow> (w, join '' '' (v # ws), Map.empty)
           | _ \<Rightarrow> (''unknown'', message, Map.empty)))
   \<and> extract_action_target ''asdkjasd'' = Inr (''unknown'', ''asdkjasd'', Map.empty)"
  using fallback_general [of message] asdkjasd_unknown by blast

theorem fallback_splits_lowered_text_witness:
  "first_template task_templates (lower ''Hello  World again'') = None
   \<and> extract_action_target ''Hello  World again'' = Inr (''hello'', ''world again'', Map.empty)"
proof
  show "first_template task_templates (lower ''Hello  World again'') = None"
    using no_match_Hello_World by (simp only: first_template_None)
  show "extract_action_target ''Hello  World again'' = Inr (''hello'', ''world again'', Map.empty)"
    using fallback_splits_lowered_text [of "''Hello  World again''"] no_match_Hello_World
    by (simp add: char_defs)
qed

text \<open>The action of the one-word message \<^verbatim>\<open>asdkjasd\<close> is not that word.\<close>

theorem asdkjasd_action_counterexample:
  "\<not> (\<exists>t ps. extract_action_target ''asdkjasd'' = Inr (''asdkjasd'', t, ps))"
  by (simp add: asdkjasd_unknown)

subsection \<open>The classifier in closed form\<close>

lemmas intent_defs = automation_words_def information_words_def workflow_words_def hits_def

lemma extract_action_target_total: "\<exists>a t ps. extract_action_target message = Inr (a, t, ps)"
proof (cases "first_template task_templates (lower message)")
  case None
  then show ?thesis
    by (auto simp: extract_action_target_def Let_def then_do_def py_index_def)
next
  case (Some tm)
  obtain t m where tm: "tm = (t, m)" by (cases tm)
  obtain ps where ps: "extract_parameters message t = Inr ps"
    using extract_parameters_total by blast
  show ?thesis
    by (cases m) (simp_all add: extract_action_target_def Some tm ps then_do_def)
qed

lemma score_buckets:
  "score ''automation'' s = Inr (hits automation_words s)"
  "score ''information'' s = Inr (hits information_words s)"
  "score ''workflow'' s = Inr (hits workflow_words s)"
  by (simp_all add: score_def py_getitem_def intents_def then_do_def)

lemma parse_intent_eq:
  assumes "extract_action_target message = Inr (a, t, ps)"
  shows "parse_intent message =
     Inr \<lparr>action = a, target = t, parameters = ps,
          confidence =
            of_nat (max (hits automation_words (lower message))
                     (max (hits information_words (lower message))
                          (hits workflow_words (lower message))))
            / of_nat (max (length (split message)) 1),
          task_type =
            (if hits information_words (lower message) \<le> hits automation_words (lower message)
                \<and> hits workflow_words (lower message) \<le> hits automation_words (lower message)
             then ''automation''
             else if hits workflow_words (lower message) \<le> hits information_words (lower message)
             then ''information'' else ''workflow'')\<rparr>"
  by (auto simp: parse_intent_def Let_def score_buckets then_do_def py_max_key_def
        py_getitem_def py_truediv_def assms max_def)

lemma hits_le: "hits ws s \<le> length ws"
  by (simp add: hits_def)

lemma parse_intent_total:
  "\<exists>a t ps. extract_action_target message = Inr (a, t, ps) \<and>
     parse_intent message =
     Inr \<lparr>action = a, target = t, parameters = ps,
          confidence =
            of_nat (max (hits automation_words (lower message))
                     (max (hits information_words (lower message))
                          (hits workflow_words (lower message))))
            / of_nat (max (length (split message)) 1),
          task_type =
            (if hits information_words (lower message) \<le> hits automation_words (lower message)
                \<and> hits workflow_words (lower message) \<le> hits automation_words (lower message)
             then ''automation''
             else if hits workflow_words (lower message) \<le> hits information_words (lower message)
             then ''information'' else ''workflow'')\<rparr>"
proof -
  obtain a t ps where e: "extract_action_target message = Inr (a, t, ps)"
    using extract_action_target_total by blast
  from parse_intent_eq [OF e] e show ?thesis by blast
qed

subsection \<open>C2: the classifier picks the bucket with most keywords\<close>

text \<open>
  C2. For every message \<^verbatim>\<open>parse_intent\<close> returns a \<^verbatim>\<open>TaskIntent\<close> and raises nothing.
  Its \<^verbatim>\<open>task_type\<close> is one of automation, information, workflow: the bucket with the
  greatest number of keywords occurring as substrings of the lower-cased message, the
  earlier bucket winning a tie. Its confidence is that greatest number divided by
  the number of words of the message, or by 1 when there is no word, and is not
  negative.
\<close>

theorem classify_highest_bucket:
  "\<exists>intent. parse_intent message = Inr intent
     \<and> task_type intent \<in> {''automation'', ''information'', ''workflow''}
     \<and> task_type intent =
         (if hits information_words (lower message) \<le> hits automation_words (lower message)
             \<and> hits workflow_words (lower message) \<le> hits automation_words (lower message)
          then ''automation''
          else if hits workflow_words (lower message) \<le> hits information_words (lower message)
          then ''information'' else ''workflow'')
     \<and> confidence intent =
         of_nat (max (hits automation_words (lower message))
                  (max (hits information_words (lower message))
                       (hits workflow_words (lower message))))
         / of_nat (max (length (split message)) 1)
     \<and> 0 \<le> confidence intent"
proof -
  obtain a t ps where p: "parse_intent message =
     Inr \<lparr>action = a, target = t, parameters = ps,
          confidence =
            of_nat (max (hits automation_words (lower message))
                     (max (hits information_words (lower message))
                          (hits workflow_words (lower message))))
            / of_nat (max (length (split message)) 1),
          task_type =
            (if hits information_words (lower message) \<le> hits automation_words (lower message)
                \<and> hits workflow_words (lower message) \<le> hits automation_words (lower message)
             then ''automation''
             else if hits workflow_words (lower message) \<le> hits information_words (lower message)
             then ''information'' else ''workflow'')\<rparr>"
    using parse_intent_total by blast
  show ?thesis unfolding p by simp
qed

theorem classify_highest_bucket_witness:
  "\<exists>intent. parse_intent ''what to record'' = Inr intent
     \<and> task_type intent = ''information'' \<and> confidence intent = 1 / 3"
proof -
  have h: "hits automation_words (lower ''what to record'') = 0"
     "hits information_words (lower ''what to record'') = 1"
     "hits workflow_words (lower ''what to record'') = 1"
    by (simp_all add: intent_defs char_defs)
  have w: "length (split ''what to record'') = 3"
    by (simp add: char_defs)
  from classify_highest_bucket [of "''what to record''"] show ?thesis
    unfolding h w by auto
qed

subsection \<open>C3: the range of the confidence\<close>

text \<open>
  C3. For every message the confidence of the \<^verbatim>\<open>TaskIntent\<close> lies between 0 and 12,
  the size of the largest bucket; it is at most 1 whenever the winning count does not
  exceed the number of words (taken as 1 for a message without words).
\<close>

theorem confidence_bounds:
  "\<exists>intent. parse_intent message = Inr intent
     \<and> 0 \<le> confidence intent \<and> confidence intent \<le> 12
     \<and> (max (hits automation_words (lower message))
           (max (hits information_words (lower message))
                (hits workflow_words (lower message)))
         \<le> max (length (split message)) 1 \<longrightarrow> confidence intent \<le> 1)"
proof -
  let ?n = "max (hits automation_words (lower message))
                     (max (hits information_words (lower message))
                          (hits workflow_words (lower message)))"
  let ?d = "max (length (split message)) 1"
  obtain intent where p: "parse_intent message = Inr intent"
    and c: "confidence intent = of_nat ?n / of_nat ?d"
    using parse_intent_total [of message] by force
  have n12: "?n \<le> 12"
    using hits_le [of automation_words "lower message"]
      hits_le [of information_words "lower message"]
      hits_le [of workflow_words "lower message"]
    by (simp add: automation_words_def information_words_def workflow_words_def)
  have d1: "1 \<le> ?d" by simp
  have "(of_nat ?n :: rat) / of_nat ?d \<le> of_nat ?n"
    using d1 by (simp add: divide_le_eq mult_le_cancel_left1 del: of_nat_max)
  also have "\<dots> \<le> 12" using n12 by (metis of_nat_le_iff of_nat_numeral)
  finally have up: "confidence intent \<le> 12" by (simp only: c)
  have lo: "0 \<le> confidence intent" by (simp only: c) simp
  have one: "?n \<le> ?d \<Longrightarrow> confidence intent \<le> 1"
  proof -
    assume "?n \<le> ?d"
    then have "(of_nat ?n :: rat) \<le> of_nat ?d" by (simp only: of_nat_le_iff)
    moreover have "(0::rat) < of_nat ?d" using d1 by (simp del: of_nat_max)
    ultimately show ?thesis by (simp only: c) (simp add: divide_le_eq del: of_nat_max)
  qed
  from p up lo one show ?thesis by blast
qed

theorem confidence_bounds_witness:
  "\<exists>intent. parse_intent ''open chrome'' = Inr intent
     \<and> 0 \<le> confidence intent \<and> confidence intent \<le> 1"
proof -
  have h: "hits automation_words (lower ''open chrome'') = 1"
     "hits information_words (lower ''open chrome'') = 0"
     "hits workflow_words (lower ''open chrome'') = 0"
    by (simp_all add: intent_defs char_defs)
  have w: "length (split ''open chrome'') = 2"
    by (simp add: char_defs)
  from confidence_bounds [of "''open chrome''"] show ?thesis
    unfolding h w by auto
qed

text \<open>The one-word message \<^verbatim>\<open>openclose\<close> holds two automation keywords: confidence 2.\<close>

theorem confidence_above_one_counterexample:
  "\<exists>intent. parse_intent ''openclose'' = Inr intent \<and> confidence intent = 2
     \<and> \<not> confidence intent \<le> 1"
proof -
  have h: "hits automation_words (lower ''openclose'') = 2"
     "hits information_words (lower ''openclose'') = 0"
     "hits workflow_words (lower ''openclose'') = 0"
    by (simp_all add: intent_defs char_defs)
  have w: "length (split ''openclose'') = 1"
    by (simp add: char_defs)
  from parse_intent_total [of "''openclose''"] show ?thesis
    unfolding h w by auto
qed


lemma hits_zero: "hits ws s = 0 \<longleftrightarrow> (\<forall>w \<in> set ws. \<not> py_in w s)"
  by (simp add: hits_def filter_empty_conv)

lemma select_branch_known:
  "select_branch ''automation'' = AutomationBranch"
  "select_branch ''information'' = InformationBranch"
  "select_branch ''workflow'' = WorkflowBranch"
  by (simp_all add: select_branch_def)

subsection \<open>C9: no keyword at all, and the chat branch\<close>

text \<open>
  C9. When no keyword of the three buckets occurs in the lower-cased message, as in
  the empty message, \<^verbatim>\<open>parse_intent\<close> returns \<^verbatim>\<open>task_type\<close> automation with
  confidence 0. For every message the \<^verbatim>\<open>task_type\<close> is never \<^verbatim>\<open>chat\<close>, the
  \<^verbatim>\<open>else\<close> branch of \<^verbatim>\<open>process_message\<close> is not taken, and the response emitted is
  that of one of the three handlers.
\<close>

theorem no_keyword_is_automation_never_chat:
  "((\<forall>w \<in> set (automation_words @ information_words @ workflow_words).
       \<not> py_in w (lower message)) \<longrightarrow>
     (\<exists>intent. parse_intent message = Inr intent
        \<and> task_type intent = ''automation'' \<and> confidence intent = 0))
   \<and> (\<exists>intent. parse_intent message = Inr intent
        \<and> task_type intent \<noteq> ''chat''
        \<and> select_branch (task_type intent) \<noteq> ChatBranch
        \<and> process_message eng message =
            [status_updated ''Processing message...'',
             response_ready
               (if task_type intent = ''automation''
                  then handle_automation_intent message intent
                else if task_type intent = ''information''
                  then handle_information_intent eng message intent
                else handle_workflow_intent message intent),
             status_updated ''Response ready''])"
proof -
  let ?a = "hits automation_words (lower message)"
  let ?i = "hits information_words (lower message)"
  let ?w = "hits workflow_words (lower message)"
  obtain intent where p: "parse_intent message = Inr intent"
    and tt: "task_type intent =
      (if ?i \<le> ?a \<and> ?w \<le> ?a then ''automation''
       else if ?w \<le> ?i then ''information'' else ''workflow'')"
    and c: "confidence intent = of_nat (max ?a (max ?i ?w)) / of_nat (max (length (split message)) 1)"
    using parse_intent_total [of message] by force
  have first: "(\<forall>w \<in> set (automation_words @ information_words @ workflow_words).
       \<not> py_in w (lower message)) \<Longrightarrow>
       task_type intent = ''automation'' \<and> confidence intent = 0"
  proof -
    assume "\<forall>w \<in> set (automation_words @ information_words @ workflow_words).
       \<not> py_in w (lower message)"
    then have "?a = 0" "?i = 0" "?w = 0"
      by (simp_all add: hits_zero)
    then show ?thesis by (simp add: tt c)
  qed
  have known: "task_type intent = ''automation'' \<or> task_type intent = ''information''
                \<or> task_type intent = ''workflow''"
    by (simp add: tt)
  then have nochat: "task_type intent \<noteq> ''chat''" by auto
  from known have nobranch: "select_branch (task_type intent) \<noteq> ChatBranch"
    by (auto simp: select_branch_known)
  from known have pm: "process_message eng message =
            [status_updated ''Processing message...'',
             response_ready
               (if task_type intent = ''automation''
                  then handle_automation_intent message intent
                else if task_type intent = ''information''
                  then handle_information_intent eng message intent
                else handle_workflow_intent message intent),
             status_updated ''Response ready'']"
    by (auto simp: process_message_def p then_do_def try_except_def select_branch_known)
  from p first nochat nobranch pm show ?thesis by blast
qed

theorem no_keyword_is_automation_never_chat_witness:
  "\<exists>intent. parse_intent [] = Inr intent
        \<and> task_type intent = ''automation'' \<and> confidence intent = 0"
proof -
  have "\<forall>w \<in> set (automation_words @ information_words @ workflow_words).
       \<not> py_in w (lower [])"
    by (simp add: intent_defs char_defs)
  with no_keyword_is_automation_never_chat [of "[]"] show ?thesis by blast
qed

subsection \<open>The backend selection, case by case\<close>

lemma local_body_total: "\<exists>r. local_body message = Inr r \<and> r \<noteq> []"
  by (simp add: local_body_def Let_def help_menu_def)

lemma generate_local_response_nonempty: "generate_local_response message \<noteq> []"
  using local_body_total [of message]
  by (auto simp: generate_local_response_def try_except_def)

lemma chat_gemini:
  assumes "use_gemini eng \<and> truthy (gemini_api_key eng)"
  shows "generate_chat_response eng message =
           (case gemini_generate eng (gemini_prompt message) of
              Inr text \<Rightarrow> strip text
            | Inl e \<Rightarrow> generate_local_response message)"
  using assms
  by (simp add: generate_chat_response_def generate_gemini_response_def try_except_def
        then_do_def split: sum.splits)

lemma chat_openai:
  assumes "\<not> (use_gemini eng \<and> truthy (gemini_api_key eng))"
    and "use_openai eng \<and> truthy (api_key eng)"
  shows "generate_chat_response eng message =
           (case openai_create eng message of
              Inr content \<Rightarrow> strip content
            | Inl e \<Rightarrow> generate_local_response message)"
  using assms
  by (auto simp: generate_chat_response_def generate_openai_response_def try_except_def
        then_do_def split: sum.splits)

lemma chat_local:
  assumes "\<not> (use_gemini eng \<and> truthy (gemini_api_key eng))"
    and "\<not> (use_openai eng \<and> truthy (api_key eng))"
  shows "generate_chat_response eng message = generate_local_response message"
  using assms
  by (auto simp: generate_chat_response_def try_except_def)

subsection \<open>C1: one backend is selected, a remote fault goes to the local responder\<close>

text \<open>
  C1. For every message \<^verbatim>\<open>generate_chat_response\<close> selects one backend from the
  configuration: Gemini when it is configured, otherwise OpenAI when it is
  configured, otherwise the local keyword responder. The reply of the selected remote
  backend is returned stripped; a fault of the selected remote backend is answered by
  the local keyword responder, whatever the other remote backend would do.
\<close>

theorem chat_selects_one_backend:
  "(use_gemini eng \<and> truthy (gemini_api_key eng) \<longrightarrow>
      (\<forall>reply. gemini_generate eng (gemini_prompt message) = Inr reply \<longrightarrow>
         generate_chat_response eng message = strip reply)
    \<and> (\<forall>e. gemini_generate eng (gemini_prompt message) = Inl e \<longrightarrow>
         generate_chat_response eng message = generate_local_response message))
   \<and> (\<not> (use_gemini eng \<and> truthy (gemini_api_key eng))
        \<and> use_openai eng \<and> truthy (api_key eng) \<longrightarrow>
      (\<forall>content. openai_create eng message = Inr content \<longrightarrow>
         generate_chat_response eng message = strip content)
    \<and> (\<forall>e. openai_create eng message = Inl e \<longrightarrow>
         generate_chat_response eng message = generate_local_response message))
   \<and> (\<not> (use_gemini eng \<and> truthy (gemini_api_key eng))
        \<and> \<not> (use_openai eng \<and> truthy (api_key eng)) \<longrightarrow>
      generate_chat_response eng message = generate_local_response message)"
proof (intro conjI impI allI)
  fix reply
  assume "use_gemini eng \<and> truthy (gemini_api_key eng)"
    and "gemini_generate eng (gemini_prompt message) = Inr reply"
  then show "generate_chat_response eng message = strip reply"
    by (simp add: chat_gemini)
next
  fix e
  assume "use_gemini eng \<and> truthy (gemini_api_key eng)"
    and "gemini_generate eng (gemini_prompt message) = Inl e"
  then show "generate_chat_response eng message = generate_local_response message"
    by (simp add: chat_gemini)
next
  fix content
  assume "\<not> (use_gemini eng \<and> truthy (gemini_api_key eng))
        \<and> use_openai eng \<and> truthy (api_key eng)"
    and "openai_create eng message = Inr content"
  then show "generate_chat_response eng message = strip content"
    using chat_openai [of eng message] by simp
next
  fix e
  assume "\<not> (use_gemini eng \<and> truthy (gemini_api_key eng))
        \<and> use_openai eng \<and> truthy (api_key eng)"
    and "openai_create eng message = Inl e"
  then show "generate_chat_response eng message = generate_local_response message"
    using chat_openai [of eng message] by simp
next
  assume "\<not> (use_gemini eng \<and> truthy (gemini_api_key eng))
        \<and> \<not> (use_openai eng \<and> truthy (api_key eng))"
  then show "generate_chat_response eng message = generate_local_response message"
    using chat_local [of eng message] by simp
qed

theorem chat_selects_one_backend_witness:
  "generate_chat_response
     \<lparr>use_openai = True, use_gemini = True, api_key = Some ''sk'', gemini_api_key = Some ''gk'',
      gemini_generate = (\<lambda>prompt. Inl (BackendFault ''quota'')),
      openai_create = (\<lambda>message. Inr '' pong '')\<rparr> ''ping''
     = generate_local_response ''ping''
   \<and> generate_chat_response
     \<lparr>use_openai = True, use_gemini = False, api_key = Some ''sk'', gemini_api_key = None,
      gemini_generate = (\<lambda>prompt. Inl (BackendFault ''quota'')),
      openai_create = (\<lambda>message. Inr '' pong '')\<rparr> ''ping''
     = ''pong''
   \<and> generate_chat_response
     \<lparr>use_openai = False, use_gemini = True, api_key = None, gemini_api_key = Some [],
      gemini_generate = (\<lambda>prompt. Inr ''never asked''),
      openai_create = (\<lambda>message. Inr '' pong '')\<rparr> ''ping''
     = generate_local_response ''ping''"
proof (intro conjI)
  let ?e1 = "\<lparr>use_openai = True, use_gemini = True, api_key = Some ''sk'',
      gemini_api_key = Some ''gk'',
      gemini_generate = (\<lambda>prompt. Inl (BackendFault ''quota'')),
      openai_create = (\<lambda>message. Inr '' pong '')\<rparr>"
  show "generate_chat_response ?e1 ''ping'' = generate_local_response ''ping''"
    using chat_selects_one_backend [of ?e1 "''ping''"] by simp
next
  let ?e2 = "\<lparr>use_openai = True, use_gemini = False, api_key = Some ''sk'',
      gemini_api_key = None,
      gemini_generate = (\<lambda>prompt. Inl (BackendFault ''quota'')),
      openai_create = (\<lambda>message. Inr '' pong '')\<rparr>"
  have "strip '' pong '' = ''pong''" by (simp add: strip_def is_space_def)
  then show "generate_chat_response ?e2 ''ping'' = ''pong''"
    using chat_selects_one_backend [of ?e2 "''ping''"] by simp
next
  let ?e3 = "\<lparr>use_openai = False, use_gemini = True, api_key = None,
      gemini_api_key = Some [],
      gemini_generate = (\<lambda>prompt. Inr ''never asked''),
      openai_create = (\<lambda>message. Inr '' pong '')\<rparr>"
  show "generate_chat_response ?e3 ''ping'' = generate_local_response ''ping''"
    using chat_selects_one_backend [of ?e3 "''ping''"] by simp
qed

text \<open>
  With both remote backends configured, Gemini faulting and OpenAI ready to answer
  \<^verbatim>\<open>pong\<close>, the program answers with the local phrase; the chain as specified
  would answer \<^verbatim>\<open>pong\<close>.
\<close>

theorem gemini_fault_skips_openai_counterexample:
  "generate_chat_response
     \<lparr>use_openai = True, use_gemini = True, api_key = Some ''sk'', gemini_api_key = Some ''gk'',
      gemini_generate = (\<lambda>prompt. Inl (BackendFault ''quota'')),
      openai_create = (\<lambda>message. Inr ''pong'')\<rparr> ''ping''
     = ''I understand you're asking about that. Let me help you with that task or question!''
   \<and> respond_as_specified
     \<lparr>use_openai = True, use_gemini = True, api_key = Some ''sk'', gemini_api_key = Some ''gk'',
      gemini_generate = (\<lambda>prompt. Inl (BackendFault ''quota'')),
      openai_create = (\<lambda>message. Inr ''pong'')\<rparr> ''ping''
     = ''pong''"
  by (simp add: generate_chat_response_def generate_gemini_response_def try_except_def
        then_do_def respond_as_specified_def generate_local_response_def local_body_def
        lower_def lower_char_def any_in_def strip_def is_space_def)

subsection \<open>C8: the local responder always answers\<close>

text \<open>
  C8. For every message, the empty one included, when each remote backend is either
  not configured or faults, \<^verbatim>\<open>generate_chat_response\<close> returns the string of the
  local keyword responder; the body of the local responder raises nothing and its
  string is never empty.
\<close>

theorem local_responder_answers:
  "((\<not> (use_gemini eng \<and> truthy (gemini_api_key eng))
       \<or> (\<exists>e. gemini_generate eng (gemini_prompt message) = Inl e))
    \<and> (\<not> (use_openai eng \<and> truthy (api_key eng))
       \<or> (\<exists>e. openai_create eng message = Inl e))
    \<longrightarrow> generate_chat_response eng message = generate_local_response message)
   \<and> (\<exists>r. local_body message = Inr r)
   \<and> generate_local_response message \<noteq> []"
proof (intro conjI impI)
  assume h: "(\<not> (use_gemini eng \<and> truthy (gemini_api_key eng))
       \<or> (\<exists>e. gemini_generate eng (gemini_prompt message) = Inl e))
    \<and> (\<not> (use_openai eng \<and> truthy (api_key eng))
       \<or> (\<exists>e. openai_create eng message = Inl e))"
  show "generate_chat_response eng message = generate_local_response message"
  proof (cases "use_gemini eng \<and> truthy (gemini_api_key eng)")
    case True
    with h obtain e where "gemini_generate eng (gemini_prompt message) = Inl e" by blast
    with True show ?thesis by (simp add: chat_gemini)
  next
    case False
    show ?thesis
    proof (cases "use_openai eng \<and> truthy (api_key eng)")
      case True
      with h obtain e where "openai_create eng message = Inl e" by blast
      with True False show ?thesis using chat_openai [of eng message] by simp
    next
      case nope: False
      with False show ?thesis using chat_local [of eng message] by simp
    qed
  qed
next
  show "\<exists>r. local_body message = Inr r" using local_body_total by blast
next
  show "generate_local_response message \<noteq> []" by (rule generate_local_response_nonempty)
qed

theorem local_responder_answers_witness:
  "generate_chat_response
     \<lparr>use_openai = True, use_gemini = False, api_key = Some ''sk'', gemini_api_key = None,
      gemini_generate = (\<lambda>prompt. Inr ''unused''),
      openai_create = (\<lambda>message. Inl (BackendFault ''network''))\<rparr> []
     = ''I understand you're asking about that. Let me help you with that task or question!''
   \<and> generate_local_response [] \<noteq> []"
proof -
  let ?e = "\<lparr>use_openai = True, use_gemini = False, api_key = Some ''sk'',
      gemini_api_key = None,
      gemini_generate = (\<lambda>prompt. Inr ''unused''),
      openai_create = (\<lambda>message. Inl (BackendFault ''network''))\<rparr>"
  have l: "generate_local_response [] =
     ''I understand you're asking about that. Let me help you with that task or question!''"
    by (simp add: generate_local_response_def local_body_def try_except_def
          lower_def any_in_def)
  from local_responder_answers [of ?e "[]"]
  have "generate_chat_response ?e [] = generate_local_response []
        \<and> generate_local_response [] \<noteq> []"
    by simp
  then show ?thesis by (simp add: l)
qed

subsection \<open>The parameter pass in closed form\<close>

text \<open>What one block of the parameter pass finds: the first group of its regex in
  the lower-cased message, when the template declares the name.\<close>

lemma extract_one_eq:
  "extract_one name (Capture a b) message t ps =
     Inr (case (if name \<in> set (tpl_parameters t)
                then re_search (Capture a b) (lower message) else None) of
            Some (g # _) \<Rightarrow> ps(name \<mapsto> Str g)
          | _ \<Rightarrow> ps)"
proof (cases "name \<in> set (tpl_parameters t)")
  case False
  then show ?thesis by (simp add: extract_one_def)
next
  case True
  show ?thesis
  proof (cases "re_search (Capture a b) (lower message)")
    case None
    with True show ?thesis by (simp add: extract_one_def)
  next
    case (Some m)
    then obtain g where "m = [g]" using re_search_Capture by blast
    with True Some show ?thesis by (simp add: extract_one_def then_do_def)
  qed
qed

lemma extract_parameters_eq:
  "extract_parameters message t =
     Inr (\<lambda>name.
       if name = ''file_path'' then
         (case (if ''file_path'' \<in> set (tpl_parameters t)
                then re_search file_path_re (lower message) else None) of
            Some (g # _) \<Rightarrow> Some (Str g) | _ \<Rightarrow> None)
       else if name = ''query'' then
         (case (if ''query'' \<in> set (tpl_parameters t)
                then re_search query_re (lower message) else None) of
            Some (g # _) \<Rightarrow> Some (Str g) | _ \<Rightarrow> None)
       else if name = ''app_name'' then
         (case (if ''app_name'' \<in> set (tpl_parameters t)
                then re_search app_name_re (lower message) else None) of
            Some (g # _) \<Rightarrow> Some (Str g) | _ \<Rightarrow> None)
       else None)"
proof -
  have a: "extract_one ''app_name'' app_name_re message t ps =
     Inr (case (if ''app_name'' \<in> set (tpl_parameters t)
                then re_search app_name_re (lower message) else None) of
            Some (g # _) \<Rightarrow> ps(''app_name'' \<mapsto> Str g)
          | _ \<Rightarrow> ps)" for ps
    unfolding app_name_re_def by (rule extract_one_eq)
  have q: "extract_one ''query'' query_re message t ps =
     Inr (case (if ''query'' \<in> set (tpl_parameters t)
                then re_search query_re (lower message) else None) of
            Some (g # _) \<Rightarrow> ps(''query'' \<mapsto> Str g)
          | _ \<Rightarrow> ps)" for ps
    unfolding query_re_def by (rule extract_one_eq)
  have f: "extract_one ''file_path'' file_path_re message t ps =
     Inr (case (if ''file_path'' \<in> set (tpl_parameters t)
                then re_search file_path_re (lower message) else None) of
            Some (g # _) \<Rightarrow> ps(''file_path'' \<mapsto> Str g)
          | _ \<Rightarrow> ps)" for ps
    unfolding file_path_re_def by (rule extract_one_eq)
  show ?thesis
    unfolding extract_parameters_def a q f then_do_def
    by (auto simp: fun_eq_iff split: option.splits list.splits)
qed

lemma matched_first_template:
  assumes "first_template task_templates (lower message) = Some (t, m)"
  shows "\<exists>ps. extract_parameters message t = Inr ps \<and>
           extract_action_target message =
             Inr (tpl_action t, (case m of [] \<Rightarrow> [] | g # _ \<Rightarrow> g), ps)"
proof -
  obtain ps where ps: "extract_parameters message t = Inr ps"
    using extract_parameters_total by blast
  show ?thesis
    by (cases m) (simp_all add: extract_action_target_def assms ps then_do_def)
qed

lemma launch_a_open_b:
  "first_template task_templates (lower ''launch a open b'') = Some (tpl_open_application, [''b''])"
  "re_search app_name_re (lower ''launch a open b'') = Some [''a'']"
  by (simp_all add: template_defs char_defs app_name_re_def)

lemma launch_a_open_b_task:
  "extract_action_target ''launch a open b'' =
     Inr (''open_app'', ''b'', [''app_name'' \<mapsto> Str ''a''])"
  by (simp add: extract_action_target_def template_defs char_defs param_defs)

subsection \<open>C5: parameters are searched again in the lower-cased message\<close>

text \<open>
  C5. When a template \<open>t\<close> is the first to match, with match \<open>m\<close>, the result has the
  action of \<open>t\<close> and the first group of \<open>m\<close> as target, and each of the parameters
  \<^verbatim>\<open>app_name\<close>, \<^verbatim>\<open>query\<close>, \<^verbatim>\<open>file_path\<close> that \<open>t\<close> declares is the first group of
  its own regex searched in the lower-cased message, absent when that regex finds
  nothing. Target and parameter come from two separate searches of the same
  lower-cased text and differ when the captures differ: \<^verbatim>\<open>launch a open b\<close> has target
  \<^verbatim>\<open>b\<close> and \<^verbatim>\<open>app_name\<close> \<^verbatim>\<open>a\<close>.
\<close>

theorem parameters_rederived_from_lowered_text:
  "(first_template task_templates (lower message) = Some (t, m) \<longrightarrow>
     (\<exists>ps. extract_action_target message =
              Inr (tpl_action t, (case m of [] \<Rightarrow> [] | g # _ \<Rightarrow> g), ps)
        \<and> ps ''app_name'' =
            (case (if ''app_name'' \<in> set (tpl_parameters t)
                   then re_search app_name_re (lower message) else None) of
               Some (g # _) \<Rightarrow> Some (Str g) | _ \<Rightarrow> None)
        \<and> ps ''query'' =
            (case (if ''query'' \<in> set (tpl_parameters t)
                   then re_search query_re (lower message) else None) of
               Some (g # _) \<Rightarrow> Some (Str g) | _ \<Rightarrow> None)
        \<and> ps ''file_path'' =
            (case (if ''file_path'' \<in> set (tpl_parameters t)
                   then re_search file_path_re (lower message) else None) of
               Some (g # _) \<Rightarrow> Some (Str g) | _ \<Rightarrow> None)))
   \<and> extract_action_target ''launch a open b'' =
       Inr (''open_app'', ''b'', [''app_name'' \<mapsto> Str ''a''])"
proof (intro conjI impI)
  assume "first_template task_templates (lower message) = Some (t, m)"
  then obtain ps where p: "extract_parameters message t = Inr ps"
    and e: "extract_action_target message =
             Inr (tpl_action t, (case m of [] \<Rightarrow> [] | g # _ \<Rightarrow> g), ps)"
    using matched_first_template by blast
  from p have ps: "ps = (\<lambda>name.
       if name = ''file_path'' then
         (case (if ''file_path'' \<in> set (tpl_parameters t)
                then re_search file_path_re (lower message) else None) of
            Some (g # _) \<Rightarrow> Some (Str g) | _ \<Rightarrow> None)
       else if name = ''query'' then
         (case (if ''query'' \<in> set (tpl_parameters t)
                then re_search query_re (lower message) else None) of
            Some (g # _) \<Rightarrow> Some (Str g) | _ \<Rightarrow> None)
       else if name = ''app_name'' then
         (case (if ''app_name'' \<in> set (tpl_parameters t)
                then re_search app_name_re (lower message) else None) of
            Some (g # _) \<Rightarrow> Some (Str g) | _ \<Rightarrow> None)
       else None)"
    by (simp add: extract_parameters_eq)
  have "ps ''app_name'' =
            (case (if ''app_name'' \<in> set (tpl_parameters t)
                   then re_search app_name_re (lower message) else None) of
               Some (g # _) \<Rightarrow> Some (Str g) | _ \<Rightarrow> None)"
    by (subst ps) simp
  moreover have "ps ''query'' =
            (case (if ''query'' \<in> set (tpl_parameters t)
                   then re_search query_re (lower message) else None) of
               Some (g # _) \<Rightarrow> Some (Str g) | _ \<Rightarrow> None)"
    by (subst ps) simp
  moreover have "ps ''file_path'' =
            (case (if ''file_path'' \<in> set (tpl_parameters t)
                   then re_search file_path_re (lower message) else None) of
               Some (g # _) \<Rightarrow> Some (Str g) | _ \<Rightarrow> None)"
    by (subst ps) simp
  ultimately show "\<exists>ps. extract_action_target message =
              Inr (tpl_action t, (case m of [] \<Rightarrow> [] | g # _ \<Rightarrow> g), ps)
        \<and> ps ''app_name'' =
            (case (if ''app_name'' \<in> set (tpl_parameters t)
                   then re_search app_name_re (lower message) else None) of
               Some (g # _) \<Rightarrow> Some (Str g) | _ \<Rightarrow> None)
        \<and> ps ''query'' =
            (case (if ''query'' \<in> set (tpl_parameters t)
                   then re_search query_re (lower message) else None) of
               Some (g # _) \<Rightarrow> Some (Str g) | _ \<Rightarrow> None)
        \<and> ps ''file_path'' =
            (case (if ''file_path'' \<in> set (tpl_parameters t)
                   then re_search file_path_re (lower message) else None) of
               Some (g # _) \<Rightarrow> Some (Str g) | _ \<Rightarrow> None)"
    using e by blast
next
  show "extract_action_target ''launch a open b'' =
       Inr (''open_app'', ''b'', [''app_name'' \<mapsto> Str ''a''])"
    by (rule launch_a_open_b_task)
qed

theorem parameters_rederived_from_lowered_text_witness:
  "first_template task_templates (lower ''launch a open b'') = Some (tpl_open_application, [''b''])
   \<and> (\<exists>ps. extract_action_target ''launch a open b'' = Inr (''open_app'', ''b'', ps)
         \<and> ps ''app_name'' = Some (Str ''a'') \<and> ps ''query'' = None
         \<and> ps ''file_path'' = None)"
proof -
  have t: "tpl_action tpl_open_application = ''open_app''"
    "tpl_parameters tpl_open_application = [''app_name'']"
    by (simp_all add: tpl_open_application_def)
  from parameters_rederived_from_lowered_text
    [of "''launch a open b''" tpl_open_application "[''b'']"] launch_a_open_b(1)
  have "\<exists>ps. extract_action_target ''launch a open b'' =
              Inr (tpl_action tpl_open_application, (case [''b''] of [] \<Rightarrow> [] | g # _ \<Rightarrow> g), ps)
        \<and> ps ''app_name'' =
            (case (if ''app_name'' \<in> set (tpl_parameters tpl_open_application)
                   then re_search app_name_re (lower ''launch a open b'') else None) of
               Some (g # _) \<Rightarrow> Some (Str g) | _ \<Rightarrow> None)
        \<and> ps ''query'' =
            (case (if ''query'' \<in> set (tpl_parameters tpl_open_application)
                   then re_search query_re (lower ''launch a open b'') else None) of
               Some (g # _) \<Rightarrow> Some (Str g) | _ \<Rightarrow> None)
        \<and> ps ''file_path'' =
            (case (if ''file_path'' \<in> set (tpl_parameters tpl_open_application)
                   then re_search file_path_re (lower ''launch a open b'') else None) of
               Some (g # _) \<Rightarrow> Some (Str g) | _ \<Rightarrow> None)"
    by blast
  then have "\<exists>ps. extract_action_target ''launch a open b'' = Inr (''open_app'', ''b'', ps)
         \<and> ps ''app_name'' = Some (Str ''a'') \<and> ps ''query'' = None
         \<and> ps ''file_path'' = None"
    unfolding t launch_a_open_b(2) by simp
  with launch_a_open_b(1) show ?thesis by blast
qed

text \<open>
  For \<^verbatim>\<open>open Chrome\<close> the parameter is \<^verbatim>\<open>chrome\<close>, while the regex applied to the
  message as given captures \<^verbatim>\<open>Chrome\<close>.
\<close>

theorem parameter_from_original_text_counterexample:
  "extract_action_target ''open Chrome'' =
     Inr (''open_app'', ''chrome'', [''app_name'' \<mapsto> Str ''chrome''])
   \<and> re_search app_name_re ''open Chrome'' = Some [''Chrome'']"
  by (simp add: extract_action_target_def template_defs char_defs param_defs)





subsection \<open>The action tags of both parsers\<close>

lemma first_pattern_Capture:
  assumes "\<forall>p \<in> set ps. \<exists>a b. p = Capture a b" and "first_pattern ps s = Some m"
  shows "\<exists>g. m = [g]"
  using assms
proof (induction ps)
  case Nil
  then show ?case by simp
next
  case (Cons p ps)
  then obtain a b where p: "p = Capture a b" by auto
  show ?case
  proof (cases "re_search p s")
    case None
    with Cons show ?thesis by simp
  next
    case (Some m')
    with Cons.prems(2) have "m' = m" by simp
    with Some p show ?thesis using re_search_Capture by blast
  qed
qed

lemma first_group_total:
  assumes "\<forall>p \<in> set ps. \<exists>a b. p = Capture a b"
  shows "\<exists>r. first_group ps s = Inr r"
proof (cases "first_pattern ps s")
  case None
  then show ?thesis by (simp add: first_group_def)
next
  case (Some m)
  with assms obtain g where "m = [g]" using first_pattern_Capture by blast
  with Some show ?thesis by (simp add: first_group_def then_do_def)
qed

lemma parse_open_app_request_action:
  "\<exists>task. parse_open_app_request request bg = Inr task \<and> task_action task = ''open_app''"
proof -
  obtain r where r: "first_group (tpl_patterns tpl_open_application) (lower request) = Inr r"
    using first_group_total [of "tpl_patterns tpl_open_application" "lower request"]
    by (auto simp: tpl_open_application_def)
  show ?thesis
    by (simp add: parse_open_app_request_def Let_def r then_do_def split: option.splits)
qed

lemma parse_web_search_request_action:
  "\<exists>task. parse_web_search_request request bg = Inr task \<and> task_action task = ''web_search''"
proof -
  obtain r where r: "first_group (tpl_patterns tpl_web_search) (lower request) = Inr r"
    using first_group_total [of "tpl_patterns tpl_web_search" "lower request"]
    by (auto simp: tpl_web_search_def)
  show ?thesis
    by (simp add: parse_web_search_request_def Let_def r then_do_def)
qed

lemma parse_file_operation_request_action:
  "\<exists>task. parse_file_operation_request request bg = Inr task
      \<and> task_action task = ''file_operation''"
proof -
  obtain r where r: "first_group [file_path_re, Capture (Seq op_words (Plus Space)) (Plus Dot)]
                       (lower request) = Inr r"
    using first_group_total
      [of "[file_path_re, Capture (Seq op_words (Plus Space)) (Plus Dot)]" "lower request"]
    by (auto simp: file_path_re_def)
  show ?thesis
    by (simp add: parse_file_operation_request_def Let_def r then_do_def)
qed

lemma parse_system_control_request_action:
  "\<exists>task. parse_system_control_request request bg = Inr task
      \<and> task_action task = ''system_control''"
  by (simp add: parse_system_control_request_def Let_def)

lemma parse_interaction_request_action:
  "\<exists>task. parse_interaction_request request bg = Inr task
      \<and> task_action task \<in> {''click'', ''type'', ''press''}"
  by (simp add: parse_interaction_request_def Let_def)

lemma parse_automation_request_action:
  "\<exists>r. parse_automation_request request bg = Inr r \<and>
     (case r of None \<Rightarrow> True
      | Some task \<Rightarrow> task_action task \<in>
          {''open_app'', ''web_search'', ''file_operation'', ''system_control'',
           ''click'', ''type'', ''press''})"
proof -
  obtain t1 where t1: "parse_open_app_request request bg = Inr t1"
      "task_action t1 = ''open_app''"
    using parse_open_app_request_action by blast
  obtain t2 where t2: "parse_web_search_request request bg = Inr t2"
      "task_action t2 = ''web_search''"
    using parse_web_search_request_action by blast
  obtain t3 where t3: "parse_file_operation_request request bg = Inr t3"
      "task_action t3 = ''file_operation''"
    using parse_file_operation_request_action by blast
  obtain t4 where t4: "parse_system_control_request request bg = Inr t4"
      "task_action t4 = ''system_control''"
    using parse_system_control_request_action by blast
  obtain t5 where t5: "parse_interaction_request request bg = Inr t5"
      "task_action t5 \<in> {''click'', ''type'', ''press''}"
    using parse_interaction_request_action by blast
  show ?thesis
    unfolding parse_automation_request_def Let_def t1(1) t2(1) t3(1) t4(1) t5(1) then_do_def
    using t1(2) t2(2) t3(2) t4(2) t5(2) by (simp only: sum.case option.case) auto
qed

lemma template_actions:
  assumes "first_template task_templates s = Some (t, m)"
  shows "tpl_action t \<in> {''open_app'', ''web_search'', ''file_operation'', ''system_control''}"
proof -
  have "\<And>ts. first_template ts s = Some (t, m) \<Longrightarrow> t \<in> snd ` set ts"
  proof -
    fix ts show "first_template ts s = Some (t, m) \<Longrightarrow> t \<in> snd ` set ts"
      by (induction ts s rule: first_template.induct) (auto split: option.splits)
  qed
  from this [OF assms] show ?thesis
    by (auto simp: template_defs)
qed

lemma intent_action:
  "\<exists>intent. parse_intent message = Inr intent \<and>
     (action intent \<in> {''open_app'', ''web_search'', ''file_operation'', ''system_control'',
                         ''unknown''}
      \<or> (\<exists>v ws. first_template task_templates (lower message) = None
                 \<and> split (lower message) = action intent # v # ws))"
proof (cases "first_template task_templates (lower message)")
  case None
  then have e: "extract_action_target message =
           Inr (case split (lower message) of
                  w # v # ws \<Rightarrow> (w, join '' '' (v # ws), Map.empty)
                | _ \<Rightarrow> (''unknown'', message, Map.empty))"
    by (intro fallback_general) (simp only: first_template_None [symmetric])
  show ?thesis
  proof (cases "split (lower message)")
    case Nil
    with e have "extract_action_target message = Inr (''unknown'', message, Map.empty)" by simp
    from parse_intent_eq [OF this] show ?thesis by simp
  next
    case (Cons w rest)
    show ?thesis
    proof (cases rest)
      case Nil
      with e Cons have "extract_action_target message = Inr (''unknown'', message, Map.empty)"
        by simp
      from parse_intent_eq [OF this] show ?thesis by simp
    next
      case (Cons v ws)
      with e \<open>split (lower message) = w # rest\<close>
      have "extract_action_target message = Inr (w, join '' '' (v # ws), Map.empty)"
        by simp
      from parse_intent_eq [OF this] None Cons \<open>split (lower message) = w # rest\<close>
      show ?thesis by simp
    qed
  qed
next
  case (Some tm)
  obtain t m where tm: "tm = (t, m)" by (cases tm)
  from Some tm obtain ps where
    e: "extract_action_target message =
             Inr (tpl_action t, (case m of [] \<Rightarrow> [] | g # _ \<Rightarrow> g), ps)"
    using matched_first_template by blast
  from template_actions Some tm
  have "tpl_action t \<in> {''open_app'', ''web_search'', ''file_operation'', ''system_control''}"
    by blast
  with parse_intent_eq [OF e] show ?thesis by auto
qed

lemma execute_task_unknown:
  assumes "task_action task \<notin> {''open_app'', ''web_search'', ''file_operation'',
             ''system_control'', ''click'', ''type'', ''press''}"
  shows "execute_task h st task =
           ([status_updated (''Executing: '' @ task_action task @ '' '' @ task_target task),
             task_completed (''Unknown action: '' @ task_action task),
             status_updated ''Task completed''],
            st\<lparr>current_task := None, is_running := False\<rparr>)"
  using assms by (simp add: execute_task_def try_except_def)


subsection \<open>C7: action tags, and the tag no executor knows\<close>

text \<open>
  C7. Every \<^verbatim>\<open>TaskIntent\<close> of \<^verbatim>\<open>parse_intent\<close> has as action one of \<^verbatim>\<open>open_app\<close>,
  \<^verbatim>\<open>web_search\<close>, \<^verbatim>\<open>file_operation\<close>, \<^verbatim>\<open>system_control\<close>, \<^verbatim>\<open>unknown\<close>, or else no
  template matched and the action is the first of at least two words of the
  lower-cased message. Every task of \<^verbatim>\<open>parse_automation_request\<close> has one of the seven
  executable tags. Given a task whose tag is none of the seven, \<^verbatim>\<open>execute_task\<close>
  raises nothing and emits the result \<^verbatim>\<open>Unknown action: <tag>\<close>.
\<close>

theorem action_tags_and_unknown_action:
  "(\<exists>intent. parse_intent message = Inr intent \<and>
     (action intent \<in> {''open_app'', ''web_search'', ''file_operation'', ''system_control'',
                         ''unknown''}
      \<or> (\<exists>v ws. first_template task_templates (lower message) = None
                 \<and> split (lower message) = action intent # v # ws)))
   \<and> (\<exists>r. parse_automation_request request bg = Inr r \<and>
        (case r of None \<Rightarrow> True
         | Some task \<Rightarrow> task_action task \<in>
             {''open_app'', ''web_search'', ''file_operation'', ''system_control'',
              ''click'', ''type'', ''press''}))
   \<and> (task_action task \<notin> {''open_app'', ''web_search'', ''file_operation'',
             ''system_control'', ''click'', ''type'', ''press''} \<longrightarrow>
        execute_task h st task =
           ([status_updated (''Executing: '' @ task_action task @ '' '' @ task_target task),
             task_completed (''Unknown action: '' @ task_action task),
             status_updated ''Task completed''],
            st\<lparr>current_task := None, is_running := False\<rparr>))"
  using intent_action [of message] parse_automation_request_action [of request bg]
    execute_task_unknown [of task h st]
  by blast

theorem action_tags_and_unknown_action_witness:
  "fst (execute_task
         \<lparr>open_application = (\<lambda>n ps. []), perform_web_search = (\<lambda>q ps. []),
          perform_system_control = (\<lambda>c ps. []), perform_interaction = (\<lambda>a t ps. []),
          path_exists = (\<lambda>p. False), path_isdir = (\<lambda>p. False),
          path_basename = (\<lambda>p. p), startfile = (\<lambda>p. None), makedirs = (\<lambda>p. None),
          open_w = (\<lambda>p. None), rmdir = (\<lambda>p. None), remove = (\<lambda>p. None)\<rparr>
         \<lparr>current_task = None, is_running = True\<rparr>
         \<lparr>task_action = ''hello'', task_target = ''world'', task_parameters = Map.empty,
          background_mode = False\<rparr>) =
     [status_updated ''Executing: hello world'',
      task_completed ''Unknown action: hello'',
      status_updated ''Task completed'']"
proof -
  let ?h = "\<lparr>open_application = (\<lambda>n ps. []), perform_web_search = (\<lambda>q ps. []),
          perform_system_control = (\<lambda>c ps. []), perform_interaction = (\<lambda>a t ps. []),
          path_exists = (\<lambda>p. False), path_isdir = (\<lambda>p. False),
          path_basename = (\<lambda>p. p), startfile = (\<lambda>p. None), makedirs = (\<lambda>p. None),
          open_w = (\<lambda>p. None), rmdir = (\<lambda>p. None), remove = (\<lambda>p. None)\<rparr>"
  let ?st = "\<lparr>current_task = None, is_running = True\<rparr>"
  let ?t = "\<lparr>task_action = ''hello'', task_target = ''world'', task_parameters = Map.empty,
          background_mode = False\<rparr>"
  have "task_action ?t \<notin> {''open_app'', ''web_search'', ''file_operation'',
             ''system_control'', ''click'', ''type'', ''press''}"
    by simp
  with action_tags_and_unknown_action [of "[]" "[]" False ?t ?h ?st]
  have "execute_task ?h ?st ?t =
           ([status_updated (''Executing: '' @ task_action ?t @ '' '' @ task_target ?t),
             task_completed (''Unknown action: '' @ task_action ?t),
             status_updated ''Task completed''],
            ?st\<lparr>current_task := None, is_running := False\<rparr>)"
    by blast
  then show ?thesis by simp
qed

text \<open>The action of \<^verbatim>\<open>hello world\<close> is \<^verbatim>\<open>hello\<close>, which is no known tag.\<close>

theorem free_word_action_counterexample:
  "\<exists>intent. parse_intent ''hello world'' = Inr intent \<and> action intent = ''hello''
     \<and> action intent \<notin> {''open_app'', ''web_search'', ''file_operation'', ''system_control'',
                           ''click'', ''type'', ''press'', ''unknown''}"
proof -
  have "extract_action_target ''hello world'' = Inr (''hello'', ''world'', Map.empty)"
    by (simp add: extract_action_target_def template_defs char_defs then_do_def py_index_def)
  from parse_intent_eq [OF this] show ?thesis by simp
qed

subsection \<open>What reaches the file executor\<close>






subsection \<open>C10: no operation parameter, and no execution of a parsed intent\<close>




end
